theory Spec2Isabelle
  imports Complex_Main "HOL-Library.AList" "HOL-Library.Char_ord" "HOL-Library.List_Lexorder"
    "HOL-Library.Product_Lexorder" "HOL-Library.Multiset"
begin

section \<open>OrthoBatch: a shallow embedding of the add-on's core\<close>

text \<open>
  The add-on is a single Python module. Its pure parts (path handling, the resolution
  policy, the tile grid) become HOL functions; the parts that mutate Blender's scene
  become functions on an explicit state record that return the updated state together
  with the exception raised, if any. Python's unbounded integers are \<^typ>\<open>int\<close>, its
  strings are \<^typ>\<open>string\<close> (ASCII), and its floats are \<^typ>\<open>real\<close> numbers.
  Where \<open>shoottarget\<close> computes the resolution, every floating-point operation is
  followed by the rounding to a double, a function that the host supplies; the
  coordinates of the tile grid are computed exactly.
  The platform is POSIX: \<open>os.sep\<close> is the slash and \<open>os.path.join\<close> is
  \<open>posixpath.join\<close>.
\<close>

subsection \<open>Python exceptions and built-in string operations\<close>

datatype py_error =
    ZeroDivisionError
  | AttributeError
  | IndexError
  | ReferenceError
  | RuntimeError

definition os_sep :: char where
  "os_sep = CHR ''/''"

definition backslash :: char where
  "backslash = CHR 0x5C"

text \<open>\<open>s.startswith(p)\<close> and \<open>s.endswith(p)\<close>.\<close>

definition startswith :: "string \<Rightarrow> string \<Rightarrow> bool" where
  "startswith s p = (take (length p) s = p)"

definition endswith :: "string \<Rightarrow> string \<Rightarrow> bool" where
  "endswith s p = (length p \<le> length s \<and> drop (length s - length p) s = p)"

text \<open>\<open>s.endswith(t)\<close> for a tuple \<open>t\<close> of suffixes.\<close>

definition endswith_any :: "string \<Rightarrow> string list \<Rightarrow> bool" where
  "endswith_any s ps = list_ex (endswith s) ps"

text \<open>\<open>s.find(sub)\<close>: the lowest index at which \<open>sub\<close> occurs, or \<open>-1\<close>.\<close>

fun find_str :: "string \<Rightarrow> string \<Rightarrow> int" where
  "find_str [] sub = (if sub = [] then 0 else -1)"
| "find_str (c # cs) sub =
     (if startswith (c # cs) sub then 0
      else (let i = find_str cs sub in if i < 0 then -1 else i + 1))"

text \<open>\<open>s.rfind(c)\<close> for a one-character \<open>c\<close>: the highest index of \<open>c\<close>, or \<open>-1\<close>.\<close>

definition rfind :: "string \<Rightarrow> char \<Rightarrow> int" where
  "rfind s c =
     (if c \<in> set s
      then int (length s) - 1 - int (length (takeWhile (\<lambda>x. x \<noteq> c) (rev s)))
      else -1)"

text \<open>
  Slices \<open>s[a:b]\<close>, \<open>s[a:]\<close> and \<open>s[:b]\<close>: a negative index counts from the end, and
  every index is clamped to the string.
\<close>

definition clamp_index :: "int \<Rightarrow> nat \<Rightarrow> nat" where
  "clamp_index i n = (if i < 0 then nat (max 0 (int n + i)) else min (nat i) n)"

definition py_slice :: "'a list \<Rightarrow> int \<Rightarrow> int \<Rightarrow> 'a list" where
  "py_slice s a b =
     (let i = clamp_index a (length s); j = clamp_index b (length s)
      in take (j - i) (drop i s))"

definition py_slice_from :: "'a list \<Rightarrow> int \<Rightarrow> 'a list" where
  "py_slice_from s a = drop (clamp_index a (length s)) s"

definition py_slice_to :: "'a list \<Rightarrow> int \<Rightarrow> 'a list" where
  "py_slice_to s b = take (clamp_index b (length s)) s"

text \<open>\<open>s.strip(c)\<close> for a one-character \<open>c\<close>.\<close>

definition strip :: "string \<Rightarrow> char \<Rightarrow> string" where
  "strip s c = rev (dropWhile (\<lambda>x. x = c) (rev (dropWhile (\<lambda>x. x = c) s)))"

text \<open>\<open>s.split(c)\<close> for a one-character separator; the result is never empty.\<close>

fun split :: "string \<Rightarrow> char \<Rightarrow> string list" where
  "split [] c = [[]]"
| "split (x # xs) c =
     (if x = c then [] # split xs c
      else (case split xs c of
              [] \<Rightarrow> [[x]]
            | p # ps \<Rightarrow> (x # p) # ps))"

text \<open>\<open>s.replace(c, d)\<close> for one-character \<open>c\<close> and \<open>d\<close>.\<close>

definition replace :: "string \<Rightarrow> char \<Rightarrow> char \<Rightarrow> string" where
  "replace s c d = map (\<lambda>x. if x = c then d else x) s"

text \<open>\<open>s.lower()\<close> on ASCII.\<close>

definition lower_char :: "char \<Rightarrow> char" where
  "lower_char c =
     (case map_of (zip ''ABCDEFGHIJKLMNOPQRSTUVWXYZ'' ''abcdefghijklmnopqrstuvwxyz'') c of
        None \<Rightarrow> c
      | Some d \<Rightarrow> d)"

definition lower :: "string \<Rightarrow> string" where
  "lower s = map lower_char s"

text \<open>\<open>xs[-1]\<close> raises \<open>IndexError\<close> on an empty list.\<close>

definition py_last :: "'a list \<Rightarrow> py_error + 'a" where
  "py_last xs = (if xs = [] then Inl IndexError else Inr (last xs))"

text \<open>\<open>str(n)\<close> for an integer.\<close>

fun digits :: "nat \<Rightarrow> string" where
  "digits n =
     (if n < 10 then [''0123456789'' ! n]
      else digits (n div 10) @ [''0123456789'' ! (n mod 10)])"

definition str_int :: "int \<Rightarrow> string" where
  "str_int i = (if i < 0 then CHR ''-'' # digits (nat (- i)) else digits (nat i))"

text \<open>\<open>range(n)\<close>: empty when \<open>n \<le> 0\<close>.\<close>

definition py_range :: "int \<Rightarrow> int list" where
  "py_range n = map int [0..<nat n]"

text \<open>\<open>os.path.join\<close> of \<open>posixpath\<close>: an absolute component discards what precedes it.\<close>

definition join2 :: "string \<Rightarrow> string \<Rightarrow> string" where
  "join2 a b =
     (if startswith b [os_sep] then b
      else if a = [] \<or> endswith a [os_sep] then a @ b
      else a @ [os_sep] @ b)"

definition os_path_join :: "string \<Rightarrow> string list \<Rightarrow> string" where
  "os_path_join a ps = foldl join2 a ps"

text \<open>
  \<open>sorted(xs)\<close> calls only \<open>__lt__\<close> and is stable: an element moves in front of an
  earlier one only when it is strictly smaller.
\<close>

fun insert_lt :: "('a \<Rightarrow> 'a \<Rightarrow> bool) \<Rightarrow> 'a \<Rightarrow> 'a list \<Rightarrow> 'a list" where
  "insert_lt lt x [] = [x]"
| "insert_lt lt x (y # ys) = (if lt y x then y # insert_lt lt x ys else x # y # ys)"

definition sorted_py :: "('a \<Rightarrow> 'a \<Rightarrow> bool) \<Rightarrow> 'a list \<Rightarrow> 'a list" where
  "sorted_py lt xs = foldr (insert_lt lt) xs []"

subsection \<open>Settings enumerations\<close>

datatype ScaleMode = uniformscale | samesize

datatype DivideMode = reduceres | evensize | maxsize

datatype MaxImgSize = px256 | px512 | px1024 | px2048 | px4096 | px8192 | px16384 | px_other

datatype ImportMode = currentfile | currentfile_selected | folder

datatype ExportPathMode = flatten | keeppath | flatten_foldername | flatten_pathname

datatype ExportNameMode = prepend | append_name

datatype Direction = dir_X | dir_negX | dir_Y | dir_negY | dir_Z | dir_negZ

text \<open>The identifier of a shoot direction, as the enum property stores it.\<close>

fun direction_str :: "Direction \<Rightarrow> string" where
  "direction_str dir_X = ''X''"
| "direction_str dir_negX = ''-X''"
| "direction_str dir_Y = ''Y''"
| "direction_str dir_negY = ''-Y''"
| "direction_str dir_Z = ''Z''"
| "direction_str dir_negZ = ''-Z''"

definition VALID_IMPORT_EXTENSIONS :: "string list" where
  "VALID_IMPORT_EXTENSIONS = [''.glb'', ''.gltf'', ''.obj'', ''.fbx'']"

subsection \<open>ModelPath\<close>

record ModelPath =
  filename :: string
  name :: string
  extension :: string
  filepath :: string
  subpath :: string
  sourcepathused :: string
  pathminusfilename :: string

text \<open>\<open>ModelPath.__init__(filename, filepath, sourcepathused)\<close>.\<close>

definition ModelPath_init :: "string \<Rightarrow> string \<Rightarrow> string \<Rightarrow> ModelPath" where
  "ModelPath_init fname fpath src =
     (let src' = strip src backslash;
          sub = strip (py_slice fpath (int (length src')) (find_str fpath fname)) backslash
      in \<lparr> filename = fname,
           name = py_slice_to fname (rfind fname CHR ''.''),
           extension = py_slice_from fname (rfind fname CHR ''.'' + 1),
           filepath = fpath,
           subpath = sub,
           sourcepathused = src',
           pathminusfilename = os_path_join src' [sub] \<rparr>)"


definition foldercount :: "ModelPath \<Rightarrow> nat" where
  "foldercount self = length (split (pathminusfilename self) os_sep)"

definition ModelPath_lt :: "ModelPath \<Rightarrow> ModelPath \<Rightarrow> bool" where
  "ModelPath_lt self other =
     (let selffoldercount = foldercount self;
          otherfoldercount = foldercount other
      in if selffoldercount = otherfoldercount
         then lower (filename self) < lower (filename other)
         else selffoldercount < otherfoldercount)"

text \<open>\<open>ModelPath.suffixName\<close> and \<open>ModelPath.imageExportPath\<close>.\<close>

fun suffixName :: "string \<Rightarrow> string \<Rightarrow> ExportNameMode \<Rightarrow> string" where
  "suffixName suffix nm prepend = suffix @ ''_'' @ nm"
| "suffixName suffix nm append_name = nm @ ''_'' @ suffix"

definition subpathtrimmed :: "ModelPath \<Rightarrow> string" where
  "subpathtrimmed self =
     (if endswith (subpath self) [os_sep] then py_slice_to (subpath self) (-1)
      else subpath self)"

fun imageExportPath ::
  "ModelPath \<Rightarrow> string \<Rightarrow> string \<Rightarrow> ExportPathMode \<Rightarrow> ExportNameMode \<Rightarrow> py_error + string"
where
  "imageExportPath self direction exportpath keeppath exportNameMode =
     Inr (os_path_join exportpath
            [subpathtrimmed self, suffixName direction (name self) exportNameMode])"
| "imageExportPath self direction exportpath flatten exportNameMode =
     Inr (os_path_join exportpath [suffixName direction (name self) exportNameMode])"
| "imageExportPath self direction exportpath flatten_pathname exportNameMode =
     Inr (os_path_join exportpath
            [suffixName direction
               (replace (subpathtrimmed self) os_sep CHR ''_'' @ ''_'' @ name self)
               exportNameMode])"
| "imageExportPath self direction exportpath flatten_foldername exportNameMode =
     (case py_last (split (subpathtrimmed self) os_sep) of
        Inl e \<Rightarrow> Inl e
      | Inr folder_name \<Rightarrow>
          Inr (os_path_join exportpath [suffixName direction folder_name exportNameMode]))"

subsection \<open>Discovery\<close>

text \<open>
  \<open>getAllModelPaths(basepath, extensions)\<close>. The directory tree is what \<open>os.walk\<close>
  yields for \<open>basepath\<close>: a list of directories, each with the names of its files.
\<close>

definition getAllModelPaths ::
  "(string \<times> string list) list \<Rightarrow> string \<Rightarrow> string list \<Rightarrow> ModelPath list"
where
  "getAllModelPaths walk basepath extensions =
     concat (map (\<lambda>(subdir, files).
        map (\<lambda>file. ModelPath_init file (os_path_join basepath [subdir, file]) basepath)
          (filter (\<lambda>file. endswith_any file extensions) files)) walk)"

subsection \<open>Resolution policy (the middle of \<open>shoottarget\<close>)\<close>

text \<open>True division \<open>a / b\<close> on floats raises on a zero divisor.\<close>

definition py_truediv :: "real \<Rightarrow> real \<Rightarrow> py_error + real" where
  "py_truediv a b = (if b = 0 then Inl ZeroDivisionError else Inr (a / b))"

text \<open>
  The \<open>match\<close> on \<open>orthobatch_maxImgSize\<close>. Its last case reads the attribute
  \<open>other\<close> of the enum's string value, which a Python string does not have.
  (The case \<open>"128"\<close> of the source is not an item of the enum.)
\<close>

fun max_image_size_of :: "MaxImgSize \<Rightarrow> py_error + int" where
  "max_image_size_of px256 = Inr 256"
| "max_image_size_of px512 = Inr 512"
| "max_image_size_of px1024 = Inr 1024"
| "max_image_size_of px2048 = Inr 2048"
| "max_image_size_of px4096 = Inr 4096"
| "max_image_size_of px8192 = Inr 8192"
| "max_image_size_of px16384 = Inr 16384"
| "max_image_size_of px_other = Inl AttributeError"

text \<open>
  A floating-point quotient: the exact quotient rounded by \<open>fl\<close>, or
  \<open>ZeroDivisionError\<close>.
\<close>

definition float_div :: "(real \<Rightarrow> real) \<Rightarrow> real \<Rightarrow> real \<Rightarrow> py_error + real" where
  "float_div fl a b = (if b = 0 then Inl ZeroDivisionError else Inr (fl (a / b)))"

text \<open>
  What is assumed of the rounding of a real number to the nearest double: it is
  monotone, it leaves zero as it is, and on the range of the normal doubles that is far
  from overflow its relative error is at most \<open>2\<^sup>-\<^sup>5\<^sup>3\<close>.
\<close>

definition double_rounding :: "(real \<Rightarrow> real) \<Rightarrow> bool" where
  "double_rounding fl \<longleftrightarrow>
     (\<forall>x y. x \<le> y \<longrightarrow> fl x \<le> fl y) \<and> fl 0 = 0 \<and>
     (\<forall>x. 1 / 2 ^ 1022 \<le> \<bar>x\<bar> \<and> \<bar>x\<bar> \<le> 2 ^ 1023 \<longrightarrow> \<bar>fl x - x\<bar> \<le> \<bar>x\<bar> / 2 ^ 53)"

text \<open>
  The \<open>match\<close> on \<open>orthobatch_scaleMode\<close> that computes \<open>px_per_unit\<close>, in the
  arithmetic of doubles with rounding \<open>fl\<close>. The pixels per unit of the settings are an
  integer, which the product with a float converts.
\<close>

definition px_per_unit_float ::
  "(real \<Rightarrow> real) \<Rightarrow> ScaleMode \<Rightarrow> DivideMode \<Rightarrow> int \<Rightarrow> int \<Rightarrow> real \<times> real
     \<Rightarrow> py_error + real"
where
  "px_per_unit_float fl scaleMode imgDivideMode imgSize max_image_size target_bb_viewsize =
     (case scaleMode of
        uniformscale \<Rightarrow>
          (if imgDivideMode = reduceres \<and>
              fl (max (fst target_bb_viewsize) (snd target_bb_viewsize) * of_int imgSize)
                > of_int max_image_size
           then float_div fl (of_int max_image_size)
                  (max (fst target_bb_viewsize) (snd target_bb_viewsize))
           else Inr (of_int imgSize))
      | samesize \<Rightarrow>
          float_div fl (of_int max_image_size)
            (max (fst target_bb_viewsize) (snd target_bb_viewsize)))"

text \<open>The arguments of the two assignments to \<open>resolution_x\<close> and \<open>resolution_y\<close>.\<close>

definition resolution_float ::
  "(real \<Rightarrow> real) \<Rightarrow> ScaleMode \<Rightarrow> DivideMode \<Rightarrow> int \<Rightarrow> int \<Rightarrow> real \<times> real
     \<Rightarrow> py_error + (int \<times> int)"
where
  "resolution_float fl scaleMode imgDivideMode imgSize max_image_size target_bb_viewsize =
     (case px_per_unit_float fl scaleMode imgDivideMode imgSize max_image_size
             target_bb_viewsize of
        Inl e \<Rightarrow> Inl e
      | Inr px_per_unit \<Rightarrow>
          Inr (\<lceil>fl (px_per_unit * fst target_bb_viewsize)\<rceil>,
               \<lceil>fl (px_per_unit * snd target_bb_viewsize)\<rceil>))"

text \<open>
  Blender keeps the properties \<open>resolution_x\<close> and \<open>resolution_y\<close> of the render settings
  in the range 4 to 65536: an assignment outside it stores the nearer bound.
\<close>

definition clamp_resolution :: "int \<Rightarrow> int" where
  "clamp_resolution r = max 4 (min 65536 r)"

text \<open>
  The same \<open>match\<close> and the same pair in exact arithmetic, that is, with a rounding
  that changes nothing.
\<close>

definition px_per_unit_of ::
  "ScaleMode \<Rightarrow> DivideMode \<Rightarrow> int \<Rightarrow> int \<Rightarrow> real \<times> real \<Rightarrow> py_error + real"
where
  "px_per_unit_of scaleMode imgDivideMode imgSize max_image_size target_bb_viewsize =
     (case scaleMode of
        uniformscale \<Rightarrow>
          (if imgDivideMode = reduceres \<and>
              max (fst target_bb_viewsize) (snd target_bb_viewsize) * of_int imgSize
                > of_int max_image_size
           then py_truediv (of_int max_image_size)
                  (max (fst target_bb_viewsize) (snd target_bb_viewsize))
           else Inr (of_int imgSize))
      | samesize \<Rightarrow>
          py_truediv (of_int max_image_size)
            (max (fst target_bb_viewsize) (snd target_bb_viewsize)))"

definition resolution_of ::
  "ScaleMode \<Rightarrow> DivideMode \<Rightarrow> int \<Rightarrow> int \<Rightarrow> real \<times> real \<Rightarrow> py_error + (int \<times> int)"
where
  "resolution_of scaleMode imgDivideMode imgSize max_image_size target_bb_viewsize =
     (case px_per_unit_of scaleMode imgDivideMode imgSize max_image_size target_bb_viewsize of
        Inl e \<Rightarrow> Inl e
      | Inr px_per_unit \<Rightarrow>
          Inr (\<lceil>px_per_unit * fst target_bb_viewsize\<rceil>,
               \<lceil>px_per_unit * snd target_bb_viewsize\<rceil>))"

text \<open>The view-plane size of a bounding box seen along a direction, before padding.\<close>

fun bb_viewsize :: "Direction \<Rightarrow> real \<times> real \<times> real \<Rightarrow> real \<times> real" where
  "bb_viewsize dir_X (x, y, z) = (y, z)"
| "bb_viewsize dir_Y (x, y, z) = (x, z)"
| "bb_viewsize dir_Z (x, y, z) = (x, y)"
| "bb_viewsize dir_negX (x, y, z) = (y, z)"
| "bb_viewsize dir_negY (x, y, z) = (x, z)"
| "bb_viewsize dir_negZ (x, y, z) = (x, y)"

subsection \<open>Blender state\<close>

datatype ObjType = MESH | CAMERA | OTHER_TYPE

record Object =
  obj_name :: string
  obj_type :: ObjType
  hide_render :: bool
  materials :: "nat option list"
  dimensions :: "real \<times> real \<times> real"

text \<open>\<open>bpy.context.scene.render\<close>.\<close>

record RenderSettings =
  resolution_x :: int
  resolution_y :: int
  use_border :: bool
  use_crop_to_border :: bool
  render_filepath :: string
  border_min_x :: real
  border_max_x :: real
  border_min_y :: real
  border_max_y :: real

text \<open>The settings the add-on registers on the window manager.\<close>

record WindowManager =
  orthobatch_scaleMode :: ScaleMode
  orthobatch_imgSize :: int
  orthobatch_maxImgSize :: MaxImgSize
  orthobatch_imgDivideMode :: DivideMode
  orthobatch_imgPadding :: real
  orthobatch_sourcePath :: string
  orthobatch_exportPath :: string
  orthobatch_importMode :: ImportMode
  orthobatch_limitSearch :: bool
  orthobatch_overrideStartSearch :: bool
  orthobatch_startSearch :: int
  orthobatch_maxFiles :: int
  orthobatch_exportPathMode :: ExportPathMode
  orthobatch_exportNameMode :: ExportNameMode
  orthobatch_shootDirections :: "Direction list"
  orthobatch_backCulling :: bool

text \<open>What \<open>ShowMessageBox\<close> is called with.\<close>

datatype Message =
    Text string
  | ErrorOccurred py_error
  | ImportReport "(string \<times> string) list" "(string \<times> string) list"

text \<open>
  The part of Blender's state that \<open>main\<close> reads and writes. Objects and materials are
  referred to by number, so that two material slots can hold the same material.
  \<open>rendered\<close> logs the render settings of every image written.
\<close>

record Blend =
  window_manager :: WindowManager
  scene_render :: RenderSettings
  scene_objects :: "(nat \<times> Object) list"
  use_backface_culling :: "nat \<Rightarrow> bool"
  active_object :: "nat option"
  selected_objects :: "nat list"
  selectable_objects :: "nat list"
  next_id :: nat
  rendered :: "RenderSettings list"
  messages :: "Message list"

text \<open>
  What the host provides: the directory tree as \<open>os.walk\<close> lists it, the importers
  (which raise with a message or create objects), whether a render call succeeds, and the
  rounding of a real number to a double.
\<close>

record Host =
  os_walk :: "string \<Rightarrow> (string \<times> string list) list"
  import_op :: "string \<Rightarrow> string + Object list"
  render_op_ok :: "RenderSettings \<Rightarrow> bool"
  float_round :: "real \<Rightarrow> real"

text \<open>
  Python's truth value of an object: a \<open>bool\<close> is itself, and an object whose class
  defines neither \<open>__bool__\<close> nor \<open>__len__\<close> (such as a property definition) is true.
\<close>

datatype py_value = PyBool bool | BoolProperty string string bool

fun truthy :: "py_value \<Rightarrow> bool" where
  "truthy (PyBool b) = b"
| "truthy (BoolProperty nm description dflt) = True"

text \<open>The attribute \<open>bpy.types.WindowManager.orthobatch_overrideStartSearch\<close> of the type.\<close>

definition WindowManager_orthobatch_overrideStartSearch :: py_value where
  "WindowManager_orthobatch_overrideStartSearch =
     BoolProperty ''Start after first model''
       ''If true, only import models after the chosen index'' False"

definition ShowMessageBox :: "Message \<Rightarrow> Blend \<Rightarrow> Blend" where
  "ShowMessageBox message st = st\<lparr>messages := messages st @ [message]\<rparr>"

text \<open>A \<open>for\<close> loop whose body may raise: the first exception ends the loop.\<close>

fun run_each ::
  "('a \<Rightarrow> Blend \<Rightarrow> py_error option \<times> Blend) \<Rightarrow> 'a list \<Rightarrow> Blend \<Rightarrow> py_error option \<times> Blend"
where
  "run_each body [] st = (None, st)"
| "run_each body (x # xs) st =
     (case body x st of
        (Some e, st') \<Rightarrow> (Some e, st')
      | (None, st') \<Rightarrow> run_each body xs st')"

subsection \<open>Tiled rendering\<close>

text \<open>\<open>bpy.ops.render.render(write_still = True)\<close>: writes an image or raises.\<close>

definition bpy_ops_render_render :: "Host \<Rightarrow> Blend \<Rightarrow> py_error option \<times> Blend" where
  "bpy_ops_render_render host st =
     (if render_op_ok host (scene_render st)
      then (None, st\<lparr>rendered := rendered st @ [scene_render st]\<rparr>)
      else (Some RuntimeError, st))"

text \<open>The body of the two nested loops of \<open>render\<close>, for one \<open>row\<close> and \<open>column\<close>.\<close>

definition render_tile ::
  "Host \<Rightarrow> string \<Rightarrow> int \<Rightarrow> int \<Rightarrow> int \<Rightarrow> int \<Rightarrow> int \<Rightarrow> Blend \<Rightarrow> py_error option \<times> Blend"
where
  "render_tile host basepath max_res pieces_x pieces_y row column st =
     (let rndrpath = basepath @ ''_'' @ str_int (row + 1) @ ''_'' @ str_int (column + 1);
          st1 = st\<lparr>scene_render := (scene_render st)\<lparr>render_filepath := rndrpath\<rparr>\<rparr>;
          r = scene_render st1
      in case orthobatch_imgDivideMode (window_manager st1) of
           evensize \<Rightarrow>
             (case py_truediv 1 (of_int pieces_x) of
                Inl e \<Rightarrow> (Some e, st1)
              | Inr qx \<Rightarrow>
                  (let st2 = st1\<lparr>scene_render := r\<lparr>border_min_x := qx * of_int row,
                                   border_max_x := qx * of_int (row + 1)\<rparr>\<rparr>
                   in case py_truediv 1 (of_int pieces_y) of
                        Inl e \<Rightarrow> (Some e, st2)
                      | Inr qy \<Rightarrow>
                          bpy_ops_render_render host
                            (st2\<lparr>scene_render := (scene_render st2)
                               \<lparr>border_min_y := qy * of_int column,
                                border_max_y := qy * of_int (column + 1)\<rparr>\<rparr>)))
         | maxsize \<Rightarrow>
             (if resolution_x r = 0 then (Some ZeroDivisionError, st1)
              else
                (let st2 = st1\<lparr>scene_render := r
                       \<lparr>border_min_x := of_int (max_res * row) / of_int (resolution_x r),
                        border_max_x := of_int (min (max_res * (row + 1)) (resolution_x r))
                                          / of_int (resolution_x r)\<rparr>\<rparr>
                 in if resolution_y r = 0 then (Some ZeroDivisionError, st2)
                    else bpy_ops_render_render host
                           (st2\<lparr>scene_render := (scene_render st2)
                              \<lparr>border_min_y := of_int (max_res * column) / of_int (resolution_y r),
                               border_max_y := of_int (min (max_res * (column + 1)) (resolution_y r))
                                                 / of_int (resolution_y r)\<rparr>\<rparr>)))
         | reduceres \<Rightarrow> bpy_ops_render_render host st1)"

text \<open>\<open>render(basepath, max_res)\<close>.\<close>

definition render :: "Host \<Rightarrow> string \<Rightarrow> int \<Rightarrow> Blend \<Rightarrow> py_error option \<times> Blend" where
  "render host basepath max_res st =
     (case py_truediv (of_int (resolution_x (scene_render st))) (of_int max_res) of
        Inl e \<Rightarrow> (Some e, st)
      | Inr qx \<Rightarrow>
          (case py_truediv (of_int (resolution_y (scene_render st))) (of_int max_res) of
             Inl e \<Rightarrow> (Some e, st)
           | Inr qy \<Rightarrow>
               (let pieces_x = \<lceil>qx\<rceil>; pieces_y = \<lceil>qy\<rceil>
                in if pieces_x = 1 \<and> pieces_y = 1
                   then bpy_ops_render_render host
                          (st\<lparr>scene_render := (scene_render st)
                             \<lparr>use_border := False, use_crop_to_border := False,
                              render_filepath := basepath\<rparr>\<rparr>)
                   else run_each
                          (\<lambda>row. run_each
                             (\<lambda>column. render_tile host basepath max_res pieces_x pieces_y row column)
                             (py_range pieces_y))
                          (py_range pieces_x)
                          (st\<lparr>scene_render := (scene_render st)
                             \<lparr>use_border := True, use_crop_to_border := True\<rparr>\<rparr>))))"

text \<open>
  The part of the frame that a render call covers, in normalised coordinates
  \<open>(min_x, max_x, min_y, max_y)\<close>: the border when it is enabled, the whole frame otherwise.
\<close>

definition crop_box :: "RenderSettings \<Rightarrow> real \<times> real \<times> real \<times> real" where
  "crop_box r =
     (if use_border r then (border_min_x r, border_max_x r, border_min_y r, border_max_y r)
      else (0, 1, 0, 1))"

subsection \<open>Shooting one object\<close>

text \<open>
  The view-plane size with the padding added to both components, each sum a
  floating-point addition.
\<close>

definition padded_viewsize ::
  "(real \<Rightarrow> real) \<Rightarrow> Direction \<Rightarrow> real \<times> real \<times> real \<Rightarrow> real \<Rightarrow> real \<times> real"
where
  "padded_viewsize fl direction dims imgPadding =
     (fl (fst (bb_viewsize direction dims) + imgPadding),
      fl (snd (bb_viewsize direction dims) + imgPadding))"

text \<open>
  \<open>shoottarget(camera, target, direction, path)\<close>. The placement of the camera and the
  purge of orphaned data do not touch what is modelled here. The two assignments to the
  resolution store what Blender's property range makes of the computed values.
\<close>

definition shoottarget ::
  "Host \<Rightarrow> nat \<Rightarrow> nat \<Rightarrow> Direction \<Rightarrow> string \<Rightarrow> Blend \<Rightarrow> py_error option \<times> Blend"
where
  "shoottarget host camera target direction path st =
     (case map_of (scene_objects st) target of
        None \<Rightarrow> (Some ReferenceError, st)
      | Some tobj \<Rightarrow>
          (let wm = window_manager st;
               target_bb_viewsize =
                 padded_viewsize (float_round host) direction (dimensions tobj)
                   (orthobatch_imgPadding wm)
           in case max_image_size_of (orthobatch_maxImgSize wm) of
                Inl e \<Rightarrow> (Some e, st)
              | Inr max_image_size \<Rightarrow>
                  (case resolution_float (float_round host) (orthobatch_scaleMode wm)
                          (orthobatch_imgDivideMode wm) (orthobatch_imgSize wm)
                          max_image_size target_bb_viewsize of
                     Inl e \<Rightarrow> (Some e, st)
                   | Inr res \<Rightarrow>
                       render host path max_image_size
                         (st\<lparr>scene_render := (scene_render st)
                            \<lparr>resolution_x := clamp_resolution (fst res),
                             resolution_y := clamp_resolution (snd res)\<rparr>\<rparr>))))"

definition set_hide_render :: "nat \<Rightarrow> bool \<Rightarrow> Blend \<Rightarrow> Blend" where
  "set_hide_render object v st =
     st\<lparr>scene_objects :=
          map (\<lambda>(i, ob). if i = object then (i, ob\<lparr>hide_render := v\<rparr>) else (i, ob))
            (scene_objects st)\<rparr>"

definition set_culling :: "nat \<Rightarrow> bool \<Rightarrow> Blend \<Rightarrow> Blend" where
  "set_culling material v st =
     st\<lparr>use_backface_culling := (use_backface_culling st)(material := v)\<rparr>"

text \<open>
  The first loop of \<open>prepare_shoot_clean_object\<close>: slot by slot, remember the material's
  culling flag in \<open>old_culling\<close> and overwrite it with the configured value.
\<close>

fun backup_culling :: "nat option list \<Rightarrow> bool \<Rightarrow> Blend \<Rightarrow> bool list \<times> Blend" where
  "backup_culling [] v st = ([], st)"
| "backup_culling (None # slots) v st =
     (let (olds, st') = backup_culling slots v st in (False # olds, st'))"
| "backup_culling (Some material # slots) v st =
     (let old = use_backface_culling st material;
          (olds, st') = backup_culling slots v (set_culling material v st)
      in (old # olds, st'))"

text \<open>The last loop: slot by slot, write \<open>old_culling[i]\<close> back.\<close>

fun restore_culling :: "nat option list \<Rightarrow> bool list \<Rightarrow> Blend \<Rightarrow> Blend" where
  "restore_culling (None # slots) (old # olds) st = restore_culling slots olds st"
| "restore_culling (Some material # slots) (old # olds) st =
     restore_culling slots olds (set_culling material old st)"
| "restore_culling slots olds st = st"

text \<open>The body of the loop over the shoot directions.\<close>

definition shoot_direction ::
  "Host \<Rightarrow> nat \<Rightarrow> nat \<Rightarrow> ModelPath \<Rightarrow> Direction \<Rightarrow> Blend \<Rightarrow> py_error option \<times> Blend"
where
  "shoot_direction host object cam modelpath dir st =
     (case imageExportPath modelpath (direction_str dir)
             (orthobatch_exportPath (window_manager st))
             (orthobatch_exportPathMode (window_manager st))
             (orthobatch_exportNameMode (window_manager st)) of
        Inl e \<Rightarrow> (Some e, st)
      | Inr exportpath \<Rightarrow> shoottarget host cam object dir exportpath st)"

text \<open>\<open>prepare_shoot_clean_object(object, cam, modelpath)\<close>.\<close>

definition prepare_shoot_clean_object ::
  "Host \<Rightarrow> nat \<Rightarrow> nat \<Rightarrow> ModelPath \<Rightarrow> Blend \<Rightarrow> py_error option \<times> Blend"
where
  "prepare_shoot_clean_object host object cam modelpath st =
     (case map_of (scene_objects st) object of
        None \<Rightarrow> (Some ReferenceError, st)
      | Some ob \<Rightarrow>
          (let (old_culling, st1) =
                 backup_culling (materials ob) (orthobatch_backCulling (window_manager st)) st;
               st2 = set_hide_render object False st1
           in case run_each (shoot_direction host object cam modelpath)
                     (orthobatch_shootDirections (window_manager st2)) st2 of
                (Some e, st3) \<Rightarrow> (Some e, st3)
              | (None, st3) \<Rightarrow>
                  (None, restore_culling (materials ob) old_culling
                           (set_hide_render object True st3))))"

subsection \<open>Importing and disposing\<close>

text \<open>
  \<open>bpy.ops.object.join()\<close> with \<open>active\<close> as the active object: the selected objects
  are merged into it and leave the scene.
\<close>

definition bpy_ops_object_join :: "nat \<Rightarrow> nat list \<Rightarrow> Blend \<Rightarrow> Blend" where
  "bpy_ops_object_join active selected st =
     st\<lparr>scene_objects :=
          map (\<lambda>(i, ob).
                 if i = active
                 then (i, ob\<lparr>materials := materials ob @
                        concat (map (\<lambda>(j, ob'). materials ob')
                          (filter (\<lambda>(j, ob'). j \<in> set selected) (scene_objects st)))\<rparr>)
                 else (i, ob))
            (filter (\<lambda>(i, ob). i \<notin> set selected) (scene_objects st))\<rparr>"

text \<open>
  \<open>ModelPath.tryImport()\<close>: every exception of the importer is caught and returned as a
  message. The created objects get fresh numbers.
\<close>

definition tryImport :: "Host \<Rightarrow> ModelPath \<Rightarrow> Blend \<Rightarrow> (nat option \<times> string) \<times> Blend" where
  "tryImport host self st =
     (let before_import_active = active_object st
      in if extension self \<in> set [''obj'', ''gltf'', ''glb'', ''fbx'']
         then (case import_op host (filepath self) of
                 Inl error \<Rightarrow> ((None, ''FAILED: '' @ error), st)
               | Inr created \<Rightarrow>
                   (let imported = [next_id st ..< next_id st + length created];
                        st1 = st\<lparr>scene_objects := scene_objects st @ zip imported created,
                                 next_id := next_id st + length created,
                                 active_object := before_import_active\<rparr>
                    in if length imported < 1
                       then ((None, ''FAILED: No meshes found in imported object''), st1)
                       else if length imported = 1
                       then ((Some (hd imported), ''succeeded''), st1)
                       else ((before_import_active, ''succeeded''),
                             bpy_ops_object_join (hd imported) (tl imported) st1)))
         else ((None, ''FAILED: improper file extension''), st))"

text \<open>\<open>disposeobject(object)\<close>; a removed object can no longer be referred to.\<close>

definition disposeobject :: "nat \<Rightarrow> Blend \<Rightarrow> py_error option \<times> Blend" where
  "disposeobject object st =
     (if object \<in> fst ` set (scene_objects st)
      then (None, st\<lparr>scene_objects := filter (\<lambda>(i, ob). i \<noteq> object) (scene_objects st),
                     selected_objects := [],
                     selectable_objects := filter (\<lambda>i. i \<noteq> object) (selectable_objects st)\<rparr>)
      else (Some ReferenceError, st))"

text \<open>\<open>prepareorthocam()\<close>: a new camera object, linked to the scene.\<close>

definition prepareorthocam :: "Blend \<Rightarrow> nat \<times> Blend" where
  "prepareorthocam st =
     (next_id st,
      st\<lparr>scene_objects := scene_objects st @
            [(next_id st, \<lparr>obj_name = ''OrthoCam'', obj_type = CAMERA, hide_render = False,
                            materials = [], dimensions = (0, 0, 0)\<rparr>)],
         next_id := next_id st + 1\<rparr>)"

subsection \<open>The batch run\<close>

text \<open>The start-index and maximum-count windows that \<open>main\<close> cuts from the sorted list.\<close>

definition select_modelpaths :: "WindowManager \<Rightarrow> ModelPath list \<Rightarrow> ModelPath list" where
  "select_modelpaths wm modelpaths =
     (let modelpaths1 =
            (if truthy WindowManager_orthobatch_overrideStartSearch
             then py_slice_from modelpaths
                    (min (orthobatch_startSearch wm) (int (length modelpaths)))
             else modelpaths);
          modelpaths2 =
            (if orthobatch_limitSearch wm
             then py_slice_to modelpaths1
                    (min (orthobatch_maxFiles wm) (int (length modelpaths1)))
             else modelpaths1)
      in modelpaths2)"

text \<open>
  The loop over the model paths, with its two result lists \<open>importresults_fails\<close> and
  \<open>importresults_successes\<close>.
\<close>

fun import_loop ::
  "Host \<Rightarrow> nat \<Rightarrow> ModelPath list \<Rightarrow> (string \<times> string) list \<times> (string \<times> string) list
     \<Rightarrow> Blend \<Rightarrow> (py_error + (string \<times> string) list \<times> (string \<times> string) list) \<times> Blend"
where
  "import_loop host camera [] results st = (Inr results, st)"
| "import_loop host camera (path # paths) (fails, successes) st =
     (case tryImport host path st of
        ((None, msg), st1) \<Rightarrow>
          import_loop host camera paths (fails @ [(filepath path, msg)], successes) st1
      | ((Some ob, msg), st1) \<Rightarrow>
          (case prepare_shoot_clean_object host ob camera path st1 of
             (Some e, st2) \<Rightarrow> (Inl e, st2)
           | (None, st2) \<Rightarrow>
               (case disposeobject ob st2 of
                  (Some e, st3) \<Rightarrow> (Inl e, st3)
                | (None, st3) \<Rightarrow>
                    import_loop host camera paths
                      (fails, successes @ [(filepath path, msg)]) st3)))"

text \<open>How the \<open>try\<close> block of \<open>main\<close> is left.\<close>

datatype flow = Completed | Returned | Raised py_error

text \<open>The case \<open>"folder"\<close> of the import mode.\<close>

definition main_folder :: "Host \<Rightarrow> nat \<Rightarrow> Blend \<Rightarrow> flow \<times> Blend" where
  "main_folder host camera st =
     (let wm = window_manager st;
          modelpaths = sorted_py ModelPath_lt
            (getAllModelPaths (os_walk host (orthobatch_sourcePath wm))
               (orthobatch_sourcePath wm) VALID_IMPORT_EXTENSIONS)
      in if length modelpaths < 1
         then (Returned,
               ShowMessageBox (Text
                 ''ABORTING: Source directory has no valid model files (valid extensions are)'') st)
         else (case import_loop host camera (select_modelpaths wm modelpaths) ([], []) st of
                 (Inl e, st') \<Rightarrow> (Raised e, st')
               | (Inr (fails, successes), st') \<Rightarrow>
                   (Completed, ShowMessageBox (ImportReport successes fails) st')))"

text \<open>\<open>filter_meshes_from_objlist\<close> and the loop over the objects of the current file.\<close>

definition filter_meshes_from_objlist :: "Blend \<Rightarrow> nat list \<Rightarrow> nat list" where
  "filter_meshes_from_objlist st objlist =
     filter (\<lambda>i. case map_of (scene_objects st) i of
                   None \<Rightarrow> False
                 | Some ob \<Rightarrow> obj_type ob = MESH) objlist"

definition shoot_local_object :: "Host \<Rightarrow> nat \<Rightarrow> nat \<Rightarrow> Blend \<Rightarrow> py_error option \<times> Blend" where
  "shoot_local_object host camera obj st =
     (case map_of (scene_objects st) obj of
        None \<Rightarrow> (Some ReferenceError, st)
      | Some ob \<Rightarrow>
          if obj_type ob \<noteq> MESH then (None, st)
          else (let name_with_temp_suffix = obj_name ob @ ''.standin''
                in prepare_shoot_clean_object host obj camera
                     (ModelPath_init name_with_temp_suffix name_with_temp_suffix
                        (orthobatch_sourcePath (window_manager st))) st))"

definition main_currentfile :: "Host \<Rightarrow> nat \<Rightarrow> nat list \<Rightarrow> Blend \<Rightarrow> flow \<times> Blend" where
  "main_currentfile host camera objlist st =
     (case run_each (shoot_local_object host camera)
             (filter_meshes_from_objlist st objlist) st of
        (Some e, st') \<Rightarrow> (Raised e, st')
      | (None, st') \<Rightarrow> (Completed, st'))"

text \<open>The loop that writes the remembered \<open>hide_render\<close> flags back.\<close>

fun restore_hidden :: "nat list \<Rightarrow> bool list \<Rightarrow> Blend \<Rightarrow> py_error option \<times> Blend" where
  "restore_hidden (object # old_objs) (washidden # old_objs_werehidden) st =
     (if object \<in> fst ` set (scene_objects st)
      then restore_hidden old_objs old_objs_werehidden (set_hide_render object washidden st)
      else (Some ReferenceError, st))"
| "restore_hidden old_objs old_objs_werehidden st = (None, st)"

text \<open>The parts of \<open>main\<close> around its \<open>try\<close> block.\<close>

definition validate_sourcePath :: "Blend \<Rightarrow> Blend" where
  "validate_sourcePath st =
     (if \<not> endswith (orthobatch_sourcePath (window_manager st)) [os_sep]
      then st\<lparr>window_manager := (window_manager st)
             \<lparr>orthobatch_sourcePath := orthobatch_sourcePath (window_manager st) @ [os_sep]\<rparr>\<rparr>
      else st)"

definition hide_all_objects :: "Blend \<Rightarrow> Blend" where
  "hide_all_objects st =
     st\<lparr>scene_objects := map (\<lambda>(i, ob). (i, ob\<lparr>hide_render := True\<rparr>)) (scene_objects st)\<rparr>"

text \<open>The \<open>try\<close> block: the \<open>match\<close> on the import mode and the loop that follows it.\<close>

definition main_try :: "Host \<Rightarrow> nat \<Rightarrow> Blend \<Rightarrow> flow \<times> Blend" where
  "main_try host camera st =
     (case orthobatch_importMode (window_manager st) of
        folder \<Rightarrow> main_folder host camera st
      | currentfile \<Rightarrow> main_currentfile host camera (selectable_objects st) st
      | currentfile_selected \<Rightarrow> main_currentfile host camera (selected_objects st) st)"

text \<open>What follows the \<open>try\<close> block: restore the flags, then dispose of the camera.\<close>

definition main_cleanup :: "nat list \<Rightarrow> bool list \<Rightarrow> nat \<Rightarrow> Blend \<Rightarrow> py_error option \<times> Blend" where
  "main_cleanup old_objs old_objs_werehidden camera st =
     (case restore_hidden old_objs old_objs_werehidden st of
        (Some e, st') \<Rightarrow> (Some e, st')
      | (None, st') \<Rightarrow> disposeobject camera st')"

text \<open>
  \<open>main()\<close>. The result is the exception that escapes, if any, and the state left behind.
  A \<open>return\<close> inside the \<open>try\<close> block leaves the function at once; an exception is
  reported in a message box and the function goes on after the block.
  The universal render settings (engine, film, world colour) are not part of the state.
\<close>

definition main :: "Host \<Rightarrow> Blend \<Rightarrow> py_error option \<times> Blend" where
  "main host st0 =
     (if length (orthobatch_shootDirections (window_manager st0)) < 1
      then (None, ShowMessageBox (Text
              ''ABORTING: Should have at least one photo direction enabled'') st0)
      else
        (let st1 = validate_sourcePath st0;
             old_objs = map fst (scene_objects st1);
             old_objs_werehidden = map (\<lambda>(i, ob). hide_render ob) (scene_objects st1);
             st2 = hide_all_objects st1;
             (camera, st3) = prepareorthocam st2;
             (fl, st4) = main_try host camera st3
         in case fl of
              Returned \<Rightarrow> (None, st4)
            | Completed \<Rightarrow> main_cleanup old_objs old_objs_werehidden camera st4
            | Raised e \<Rightarrow>
                main_cleanup old_objs old_objs_werehidden camera
                  (ShowMessageBox (ErrorOccurred e) st4)))"

subsection \<open>The tiling as the specification describes it\<close>

text \<open>
  These definitions follow the words of the specification (section 4.4), for comparison
  with \<open>render\<close>. A box is \<open>(min_x, max_x, min_y, max_y)\<close> in normalised coordinates.
\<close>

type_synonym box = "real \<times> real \<times> real \<times> real"

definition tileCount :: "int \<Rightarrow> int \<Rightarrow> int" where
  "tileCount w maxDimension = \<lceil>real_of_int w / real_of_int maxDimension\<rceil>"

text \<open>The output path of the tile at the 0-based grid position \<open>(row, col)\<close>.\<close>

definition tile_path :: "string \<Rightarrow> nat \<Rightarrow> nat \<Rightarrow> string" where
  "tile_path basePath row col =
     basePath @ ''_'' @ str_int (int row + 1) @ ''_'' @ str_int (int col + 1)"

text \<open>
  The \<open>i\<close>-th boundary coordinate along an axis of \<open>w\<close> pixels: equal fractions under
  EvenSplit, multiples of the cap (at most the full length) under MaxSizeSplit. The third
  mode sets no crop window.
\<close>

definition tile_boundary :: "DivideMode \<Rightarrow> int \<Rightarrow> int \<Rightarrow> nat \<Rightarrow> real" where
  "tile_boundary mode maxDimension w i =
     (case mode of
        evensize \<Rightarrow> real i / real_of_int (tileCount w maxDimension)
      | maxsize \<Rightarrow> real_of_int (min (maxDimension * int i) w) / real_of_int w
      | reduceres \<Rightarrow> 0)"

text \<open>The boxes of an \<open>nx\<close> by \<open>ny\<close> grid with the given boundary coordinates, row by row.\<close>

definition grid_boxes :: "(nat \<Rightarrow> real) \<Rightarrow> (nat \<Rightarrow> real) \<Rightarrow> nat \<Rightarrow> nat \<Rightarrow> box list" where
  "grid_boxes bx gy nx ny =
     concat (map (\<lambda>i. map (\<lambda>j. (bx i, bx (Suc i), gy j, gy (Suc j))) [0..<ny]) [0..<nx])"

definition in_box :: "box \<Rightarrow> real \<times> real \<Rightarrow> bool" where
  "in_box b p =
     (case b of (x0, x1, y0, y1) \<Rightarrow> x0 \<le> fst p \<and> fst p \<le> x1 \<and> y0 \<le> snd p \<and> snd p \<le> y1)"

definition inside_box :: "box \<Rightarrow> real \<times> real \<Rightarrow> bool" where
  "inside_box b p =
     (case b of (x0, x1, y0, y1) \<Rightarrow> x0 < fst p \<and> fst p < x1 \<and> y0 < snd p \<and> snd p < y1)"

definition box_area :: "box \<Rightarrow> real" where
  "box_area b = (case b of (x0, x1, y0, y1) \<Rightarrow> (x1 - x0) * (y1 - y0))"

definition in_unit_square :: "real \<times> real \<Rightarrow> bool" where
  "in_unit_square p = (0 \<le> fst p \<and> fst p \<le> 1 \<and> 0 \<le> snd p \<and> snd p \<le> 1)"

text \<open>The render calls that one call of \<open>render\<close> adds to the log, and their boxes.\<close>

definition tiles_written :: "Host \<Rightarrow> string \<Rightarrow> int \<Rightarrow> Blend \<Rightarrow> RenderSettings list" where
  "tiles_written host basepath max_res st =
     drop (length (rendered st)) (rendered (snd (render host basepath max_res st)))"

definition tile_boxes :: "Host \<Rightarrow> string \<Rightarrow> int \<Rightarrow> Blend \<Rightarrow> box list" where
  "tile_boxes host basepath max_res st = map crop_box (tiles_written host basepath max_res st)"

text \<open>What the tile loops keep fixed.\<close>

definition tiling_inv :: "WindowManager \<Rightarrow> int \<Rightarrow> int \<Rightarrow> Blend \<Rightarrow> bool" where
  "tiling_inv wm w h s =
     (window_manager s = wm \<and> resolution_x (scene_render s) = w \<and>
      resolution_y (scene_render s) = h \<and> use_border (scene_render s))"

subsection \<open>Paths and discovery as the specification describes them\<close>

text \<open>
  \<open>suffixed(name)\<close> and \<open>destinationPath\<close> in the words of the specification (section
  4.1), on the base name and the relative subpath of an asset; \<open>exportRoot / x\<close> is the
  path join.
\<close>

definition suffixed :: "ExportNameMode \<Rightarrow> string \<Rightarrow> string \<Rightarrow> string" where
  "suffixed suffixPlacement direction nm =
     (case suffixPlacement of
        prepend \<Rightarrow> direction @ ''_'' @ nm
      | append_name \<Rightarrow> nm @ ''_'' @ direction)"

definition destinationPath ::
  "string \<Rightarrow> string \<Rightarrow> string \<Rightarrow> string \<Rightarrow> ExportPathMode \<Rightarrow> ExportNameMode \<Rightarrow> string"
where
  "destinationPath baseName relativeSubpath direction exportRoot namingPolicy suffixPlacement =
     (case namingPolicy of
        flatten \<Rightarrow>
          os_path_join exportRoot [suffixed suffixPlacement direction baseName]
      | keeppath \<Rightarrow>
          os_path_join exportRoot
            [relativeSubpath, suffixed suffixPlacement direction baseName]
      | flatten_pathname \<Rightarrow>
          os_path_join exportRoot
            [suffixed suffixPlacement direction
               (replace relativeSubpath os_sep CHR ''_'' @ ''_'' @ baseName)]
      | flatten_foldername \<Rightarrow>
          os_path_join exportRoot
            [suffixed suffixPlacement direction (last (split relativeSubpath os_sep))])"

text \<open>
  The extension of a file name, from its last dot on, and the membership test of the
  specification's \<open>discover\<close>: the extension, compared case-insensitively, is allowed.
\<close>

definition file_extension :: "string \<Rightarrow> string" where
  "file_extension file =
     (if CHR ''.'' \<in> set file then py_slice_from file (rfind file CHR ''.'') else [])"

definition extension_allowed_ci :: "string \<Rightarrow> string list \<Rightarrow> bool" where
  "extension_allowed_ci file allowedExtensions =
     (lower (file_extension file) \<in> set (map lower allowedExtensions))"

text \<open>
  The ordering key of the specification (section 3): the folder depth of the relative
  subpath, that is, the number of folder names in it, and the lower-cased file name.
\<close>

definition subpath_depth :: "ModelPath \<Rightarrow> nat" where
  "subpath_depth self = length (filter (\<lambda>folder. folder \<noteq> []) (split (subpath self) os_sep))"

definition ordering_key :: "ModelPath \<Rightarrow> nat \<times> string" where
  "ordering_key self = (subpath_depth self, lower (filename self))"

text \<open>
  A source folder as \<open>os.walk\<close> reports it. The folders at and below \<open>basepath\<close> are
  given by the folder names that lead to them from \<open>basepath\<close>, each with its files;
  \<open>os.walk\<close> reports \<open>basepath\<close> as it is and every other folder as the join of its parent
  and its name.
  \<open>discovered\<close> is the asset that \<open>getAllModelPaths\<close> builds for a file of such a folder.
\<close>

definition walk_dir :: "string \<Rightarrow> string list \<Rightarrow> string" where
  "walk_dir basepath dirs = foldl join2 basepath dirs"

definition os_walk_of ::
  "string \<Rightarrow> (string list \<times> string list) list \<Rightarrow> (string \<times> string list) list"
where
  "os_walk_of basepath tree = map (\<lambda>(dirs, files). (walk_dir basepath dirs, files)) tree"

definition discovered :: "string \<Rightarrow> string list \<Rightarrow> string \<Rightarrow> ModelPath" where
  "discovered basepath dirs file =
     ModelPath_init file (os_path_join basepath [walk_dir basepath dirs, file]) basepath"

text \<open>
  The source folders that the ordering is verified for: the path of the source folder is
  absolute and ends with the separator (which \<open>main\<close> appends when it is missing), the
  names of folders and files are not empty and contain no separator, no folder name
  begins with a backslash (\<open>ModelPath.__init__\<close> strips backslashes from the ends of the
  subpath), and the name of a file occurs in its path at the end only.
\<close>

definition well_formed_tree :: "string \<Rightarrow> (string list \<times> string list) list \<Rightarrow> bool" where
  "well_formed_tree basepath tree \<longleftrightarrow>
     startswith basepath [os_sep] \<and> endswith basepath [os_sep] \<and>
     (\<forall>(dirs, files) \<in> set tree.
        (\<forall>d \<in> set dirs. d \<noteq> [] \<and> os_sep \<notin> set d \<and> hd d \<noteq> backslash) \<and>
        (\<forall>file \<in> set files.
           file \<noteq> [] \<and> os_sep \<notin> set file \<and>
           find_str (filepath (discovered basepath dirs file)) file =
             int (length (filepath (discovered basepath dirs file))) - int (length file)))"



subsection \<open>Example inputs\<close>

text \<open>
  A scene with one cube, the default settings with one shoot direction, and a source
  folder with three models, the second of which the importer rejects. Every number that
  the examples compute is a double, so the rounding of the example host changes nothing.
\<close>

definition example_settings :: WindowManager where
  "example_settings =
     \<lparr> orthobatch_scaleMode = uniformscale, orthobatch_imgSize = 256,
       orthobatch_maxImgSize = px4096, orthobatch_imgDivideMode = maxsize,
       orthobatch_imgPadding = 0, orthobatch_sourcePath = ''/models'',
       orthobatch_exportPath = ''/out'', orthobatch_importMode = folder,
       orthobatch_limitSearch = False, orthobatch_overrideStartSearch = False,
       orthobatch_startSearch = 0, orthobatch_maxFiles = 10,
       orthobatch_exportPathMode = flatten, orthobatch_exportNameMode = append_name,
       orthobatch_shootDirections = [dir_Z], orthobatch_backCulling = True \<rparr>"

definition example_render :: RenderSettings where
  "example_render =
     \<lparr> resolution_x = 1920, resolution_y = 1080, use_border = False,
       use_crop_to_border = False, render_filepath = ''/tmp/'',
       border_min_x = 0, border_max_x = 1, border_min_y = 0, border_max_y = 1 \<rparr>"

definition example_cube :: Object where
  "example_cube =
     \<lparr> obj_name = ''Cube'', obj_type = MESH, hide_render = False,
       materials = [Some 0], dimensions = (2, 2, 2) \<rparr>"

definition example_scene :: Blend where
  "example_scene =
     \<lparr> window_manager = example_settings, scene_render = example_render,
       scene_objects = [(0, example_cube)], use_backface_culling = (\<lambda>material. False),
       active_object = None, selected_objects = [], selectable_objects = [0],
       next_id = 1, rendered = [], messages = [] \<rparr>"

definition example_host :: Host where
  "example_host =
     \<lparr> os_walk = (\<lambda>top. [(''/models/'', [''a.obj'', ''b.obj'', ''c.obj''])]),
       import_op = (\<lambda>path. if path = ''/models/b.obj'' then Inl ''broken file''
                            else Inr [example_cube]),
       render_op_ok = (\<lambda>r. True),
       float_round = (\<lambda>x. x) \<rparr>"






text \<open>The three models of the example folder, as discovery finds them.\<close>

definition asset_a :: ModelPath where
  "asset_a = ModelPath_init ''a.obj'' ''/models/a.obj'' ''/models/''"

definition asset_b :: ModelPath where
  "asset_b = ModelPath_init ''b.obj'' ''/models/b.obj'' ''/models/''"

definition asset_c :: ModelPath where
  "asset_c = ModelPath_init ''c.obj'' ''/models/c.obj'' ''/models/''"

text \<open>
  Variations: a renderer whose every call raises, a source folder without models, the
  example scene in the mode "objects in this file", and that scene with one material in
  two slots of the cube.
\<close>

definition failing_render_host :: Host where
  "failing_render_host = example_host\<lparr>render_op_ok := (\<lambda>r. False)\<rparr>"

definition empty_folder_host :: Host where
  "empty_folder_host =
     example_host\<lparr>os_walk := (\<lambda>top. [(''/models/'', [''readme.txt''])])\<rparr>"

definition currentfile_scene :: Blend where
  "currentfile_scene =
     example_scene\<lparr>window_manager := example_settings\<lparr>orthobatch_importMode := currentfile\<rparr>\<rparr>"

definition shared_slot_scene :: Blend where
  "shared_slot_scene =
     currentfile_scene\<lparr>scene_objects := [(0, example_cube\<lparr>materials := [Some 0, Some 0]\<rparr>)]\<rparr>"

text \<open>
  The example scene with a cube of 300 units and a cap of 16384 pixels, and the example
  scene with a start index of 1 (and the toggle "Start after first model" off).
\<close>

definition large_cube_scene :: Blend where
  "large_cube_scene =
     example_scene
       \<lparr> window_manager := example_settings\<lparr>orthobatch_maxImgSize := px16384\<rparr>,
         scene_objects := [(0, example_cube\<lparr>dimensions := (300, 300, 300)\<rparr>)] \<rparr>"

definition start_index_scene :: Blend where
  "start_index_scene =
     example_scene\<lparr>window_manager := example_settings\<lparr>orthobatch_startSearch := 1\<rparr>\<rparr>"

text \<open>
  A source folder \<open>/models/\<close> with two models and a text file, and a folder \<open>sub\<close> with
  one model.
\<close>

definition example_tree :: "(string list \<times> string list) list" where
  "example_tree =
     [([], [''Zebra.obj'', ''notes.txt'', ''apple.obj'']), ([''sub''], [''a.obj''])]"

text \<open>The example scene with the given target resolution and divide mode.\<close>

definition example_frame :: "int \<Rightarrow> int \<Rightarrow> DivideMode \<Rightarrow> Blend" where
  "example_frame w h mode =
     example_scene
       \<lparr> window_manager := example_settings\<lparr>orthobatch_imgDivideMode := mode\<rparr>,
         scene_render := example_render\<lparr>resolution_x := w, resolution_y := h\<rparr> \<rparr>"

section \<open>Verification\<close>

subsection \<open>Resolution policy\<close>

lemma rounding_nonneg:
  assumes "double_rounding fl" "0 \<le> x" shows "0 \<le> fl x"
proof -
  from assms have "fl 0 \<le> fl x" unfolding double_rounding_def by blast
  with assms show ?thesis by (simp add: double_rounding_def)
qed

lemma rounding_nonpos:
  assumes "double_rounding fl" "x \<le> 0" shows "fl x \<le> 0"
proof -
  from assms have "fl x \<le> fl 0" unfolding double_rounding_def by blast
  with assms show ?thesis by (simp add: double_rounding_def)
qed

lemma rounding_mono:
  assumes "double_rounding fl" "x \<le> y" shows "fl x \<le> fl y"
  using assms unfolding double_rounding_def by blast

lemma max_ceiling_rounded:
  fixes ew eh :: real
  assumes fl: "double_rounding fl" and "0 < ew" "0 < eh" "0 \<le> q"
  shows "max \<lceil>fl (q * ew)\<rceil> \<lceil>fl (q * eh)\<rceil> = \<lceil>fl (q * max ew eh)\<rceil>"
proof (cases "ew \<le> eh")
  case True
  then have "q * ew \<le> q * eh" using assms by (simp add: mult_left_mono)
  then have "fl (q * ew) \<le> fl (q * eh)" by (rule rounding_mono[OF fl])
  then have "\<lceil>fl (q * ew)\<rceil> \<le> \<lceil>fl (q * eh)\<rceil>" by (rule ceiling_mono)
  then show ?thesis using True by (simp add: max_def)
next
  case False
  then have "q * eh \<le> q * ew" using assms by (simp add: mult_left_mono)
  then have "fl (q * eh) \<le> fl (q * ew)" by (rule rounding_mono[OF fl])
  then have "\<lceil>fl (q * eh)\<rceil> \<le> \<lceil>fl (q * ew)\<rceil>" by (rule ceiling_mono)
  then show ?thesis using False by (simp add: max_def)
qed

text \<open>
  The test of the source, on the rounded product, agrees with the test on the
  resolution, because the cap is an integer and the rounding is monotone.
\<close>

lemma reduceres_condition_rounded:
  fixes ew eh :: real
  assumes fl: "double_rounding fl" and "0 < ew" "0 < eh" "0 < m"
  shows "(of_int m < fl (max ew eh * of_int p)) =
         (m < max \<lceil>fl (of_int p * ew)\<rceil> \<lceil>fl (of_int p * eh)\<rceil>)"
proof (cases "0 \<le> p")
  case True
  then have "max \<lceil>fl (of_int p * ew)\<rceil> \<lceil>fl (of_int p * eh)\<rceil> = \<lceil>fl (of_int p * max ew eh)\<rceil>"
    using assms by (intro max_ceiling_rounded) simp_all
  then show ?thesis by (simp add: less_ceiling_iff mult.commute)
next
  case False
  then have neg: "of_int p < (0::real)" by simp
  have "max ew eh * of_int p \<le> 0" using neg assms by (simp add: mult_nonneg_nonpos)
  then have "fl (max ew eh * of_int p) \<le> 0" by (rule rounding_nonpos[OF fl])
  then have l: "\<not> of_int m < fl (max ew eh * of_int p)" using assms by simp
  have "of_int p * ew \<le> 0" "of_int p * eh \<le> 0" using neg assms by (simp_all add: mult_nonpos_nonneg)
  then have "fl (of_int p * ew) \<le> 0" "fl (of_int p * eh) \<le> 0" by (simp_all add: rounding_nonpos[OF fl])
  then have "\<lceil>fl (of_int p * ew)\<rceil> \<le> 0" "\<lceil>fl (of_int p * eh)\<rceil> \<le> 0" by (simp_all add: ceiling_le_iff)
  with assms have "\<not> m < max \<lceil>fl (of_int p * ew)\<rceil> \<lceil>fl (of_int p * eh)\<rceil>" by linarith
  with l show ?thesis by simp
qed

lemma rounding_error:
  assumes "double_rounding fl" "1 / 2 ^ 1022 \<le> \<bar>x\<bar>" "\<bar>x\<bar> \<le> 2 ^ 1023"
  shows "\<bar>fl x - x\<bar> \<le> \<bar>x\<bar> / 2 ^ 53"
  using assms unfolding double_rounding_def by blast

text \<open>
  Dividing the cap by the longer extent and multiplying by it again gives the cap with
  an error of less than one pixel, so the ceiling is the cap or the cap plus one.
\<close>

lemma round_trip_bound:
  fixes M :: real
  assumes fl: "double_rounding fl" and m: "0 < m" "m \<le> 65536"
    and M: "1 / 2 ^ 1000 \<le> M" "M \<le> 2 ^ 1000"
  shows "\<lceil>fl (fl (of_int m / M) * M)\<rceil> = m \<or> \<lceil>fl (fl (of_int m / M) * M)\<rceil> = m + 1"
proof -
  define u :: real where "u = 1 / 2 ^ 53"
  define a where "a = of_int m / M"
  define b where "b = fl a * M"
  have Mpos: "0 < M" using M(1) by (smt (verit) zero_less_divide_1_iff zero_less_power)
  have m1: "(1::real) \<le> of_int m" "(of_int m :: real) \<le> 65536" using m by simp_all
  have apos: "0 < a" using Mpos m by (simp add: a_def)
  have alo: "1 / 2 ^ 1000 \<le> a"
  proof -
    have "1 / 2 ^ 1000 \<le> 1 / M" using M(2) Mpos by (simp add: frac_le)
    also have "\<dots> \<le> of_int m / M" using m1 Mpos by (simp add: divide_right_mono)
    finally show ?thesis by (simp add: a_def)
  qed
  have ahi: "a \<le> 65536 * 2 ^ 1000"
  proof -
    have "of_int m / M \<le> 65536 / M" using m1 Mpos by (simp add: divide_right_mono)
    also have "\<dots> \<le> 65536 / (1 / 2 ^ 1000)" using M(1) by (intro divide_left_mono) simp_all
    finally show ?thesis by (simp add: a_def)
  qed
  have "(1::real) / 2 ^ 1022 \<le> 1 / 2 ^ 1000" by simp
  with alo have r1: "1 / 2 ^ 1022 \<le> \<bar>a\<bar>" using apos by linarith
  have "(65536::real) * 2 ^ 1000 \<le> 2 ^ 1023" by simp
  with ahi have r2: "\<bar>a\<bar> \<le> 2 ^ 1023" using apos by linarith
  have ea: "\<bar>fl a - a\<bar> \<le> a * u" using rounding_error[OF fl r1 r2] apos by (simp add: u_def)
  have aM: "a * M = of_int m" using Mpos by (simp add: a_def)
  have "b - of_int m = (fl a - a) * M" using aM by (simp add: b_def algebra_simps)
  then have "\<bar>b - of_int m\<bar> = \<bar>fl a - a\<bar> * M" using Mpos by (simp add: abs_mult)
  also have "\<dots> \<le> a * u * M" using ea Mpos by (simp add: mult_right_mono)
  also have "\<dots> = of_int m * u" using aM by (simp add: algebra_simps)
  finally have eb: "\<bar>b - of_int m\<bar> \<le> of_int m * u" .
  have u: "0 < u" "u \<le> 1 / 2" "65536 * u * 3 < 1" by (simp_all add: u_def)
  have mu: "of_int m * u \<le> 65536 * u" using m1 u by simp
  have blo: "1 / 2 \<le> b"
  proof -
    have "of_int m * u \<le> of_int m * (1 / 2)" using u m1 by (intro mult_left_mono) simp_all
    with eb m1 show ?thesis by linarith
  qed
  have bhi: "b \<le> 2 * 65536" using eb mu u m1 by linarith
  have "(1::real) / 2 ^ 1022 \<le> 1 / 2" by simp
  with blo have r3: "1 / 2 ^ 1022 \<le> \<bar>b\<bar>" by linarith
  have "(2::real) * 65536 \<le> 2 ^ 1023" by simp
  with bhi blo have r4: "\<bar>b\<bar> \<le> 2 ^ 1023" by linarith
  have er: "\<bar>fl b - b\<bar> \<le> b * u" using rounding_error[OF fl r3 r4] blo by (simp add: u_def)
  have "b * u \<le> (2 * 65536) * u" using bhi u by simp
  with er eb mu u have "\<bar>fl b - of_int m\<bar> < 1" by linarith
  then have "of_int m - 1 < fl b" "fl b < of_int m + 1" by linarith+
  then have "m \<le> \<lceil>fl b\<rceil>" "\<lceil>fl b\<rceil> \<le> m + 1" by (simp_all add: le_ceiling_iff ceiling_le_iff)
  then show ?thesis unfolding b_def a_def by linarith
qed

text \<open>What \<open>shoottarget\<close> does with the resolution that the policy computes.\<close>

lemma shoottarget_render:
  assumes "map_of (scene_objects st) target = Some tobj"
    and "max_image_size_of (orthobatch_maxImgSize (window_manager st)) = Inr m"
    and "resolution_float (float_round host) (orthobatch_scaleMode (window_manager st))
           (orthobatch_imgDivideMode (window_manager st)) (orthobatch_imgSize (window_manager st)) m
           (padded_viewsize (float_round host) direction (dimensions tobj)
              (orthobatch_imgPadding (window_manager st))) = Inr (rx, ry)"
  shows "shoottarget host camera target direction path st =
           render host path m
             (st\<lparr>scene_render := (scene_render st)
                \<lparr>resolution_x := clamp_resolution rx, resolution_y := clamp_resolution ry\<rparr>\<rparr>)"
  using assms by (simp add: shoottarget_def Let_def)

lemma example_shoot_inputs:
  "float_round example_host = (\<lambda>x. x)"
  "map_of (scene_objects example_scene) 0 = Some example_cube"
  "padded_viewsize (\<lambda>x. x) dir_Z (dimensions example_cube)
     (orthobatch_imgPadding (window_manager example_scene)) = (2, 2)"
  "max_image_size_of (orthobatch_maxImgSize (window_manager example_scene)) = Inr 4096"
  "orthobatch_scaleMode (window_manager example_scene) = uniformscale"
  "orthobatch_imgDivideMode (window_manager example_scene) = maxsize"
  "orthobatch_imgSize (window_manager example_scene) = 256"
  "scene_render example_scene = example_render"
  by (simp_all add: example_host_def example_scene_def example_cube_def example_settings_def
      padded_viewsize_def)


text \<open>
  C3, as stated, fails: with uniform pixels per unit and a way of splitting, the
  resolution is not passed to the tiler unchanged when it exceeds 65536 pixels. A cube
  of 300 units at 256 pixels per unit has a resolution of 76800 by 76800; Blender
  stores 65536 by 65536, and under a cap of 16384 the tiler renders 16 tiles of that
  frame (for 76800 pixels it would render 25).
\<close>

theorem resolution_clamped_counterexample:
  "resolution_float (float_round example_host) uniformscale maxsize 256 16384 (300, 300) =
     Inr (76800, 76800) \<and>
   map (\<lambda>r. (resolution_x r, resolution_y r))
     (rendered (snd (shoottarget example_host 0 0 dir_Z ''/out/big_Z'' large_cube_scene))) =
     replicate 16 (65536, 65536)"
  by code_simp

text \<open>
  C3, amended. The arithmetic is that of doubles, with rounding \<open>fl\<close>. For a positive view
  extent \<open>(ew, eh)\<close>, pixels per unit \<open>p\<close> and a positive cap \<open>m\<close>: with a uniform output
  size the scale is \<open>m / max ew eh\<close>, and the longer axis of the resolution is \<open>m\<close> or
  \<open>m + 1\<close> (for a cap up to 65536 and an extent between \<open>2\<^sup>-\<^sup>1\<^sup>0\<^sup>0\<^sup>0\<close> and \<open>2\<^sup>1\<^sup>0\<^sup>0\<^sup>0\<close>);
  with uniform pixels per unit and "reduce pixels per unit" the scale is \<open>p\<close> unless the
  resolution it gives exceeds \<open>m\<close> on an axis, and then it is \<open>m / max ew eh\<close>; with
  uniform pixels per unit and either way of splitting the scale stays \<open>p\<close>. In every
  mode the resolution is the ceiling of scale times extent, and \<open>shoottarget\<close> calls the
  tiler with the cap on a frame of that resolution limited to Blender's range: a
  component below 4 becomes 4, a component above 65536 becomes 65536, and every other
  component is passed on unchanged.
\<close>

theorem resolution_policy_rounded:
  fixes ew eh :: real
  assumes "double_rounding fl" and "0 < ew" and "0 < eh" and "0 < m"
  shows
   "(px_per_unit_float fl samesize dm p m (ew, eh) = Inr (fl (of_int m / max ew eh)) \<and>
     (m \<le> 65536 \<and> 1 / 2 ^ 1000 \<le> max ew eh \<and> max ew eh \<le> 2 ^ 1000 \<longrightarrow>
        max \<lceil>fl (fl (of_int m / max ew eh) * ew)\<rceil> \<lceil>fl (fl (of_int m / max ew eh) * eh)\<rceil>
          \<in> {m, m + 1})) \<and>
    px_per_unit_float fl uniformscale reduceres p m (ew, eh) =
      Inr (if m < max \<lceil>fl (of_int p * ew)\<rceil> \<lceil>fl (of_int p * eh)\<rceil>
           then fl (of_int m / max ew eh) else of_int p) \<and>
    px_per_unit_float fl uniformscale evensize p m (ew, eh) = Inr (of_int p) \<and>
    px_per_unit_float fl uniformscale maxsize p m (ew, eh) = Inr (of_int p) \<and>
    (\<exists>px. px_per_unit_float fl sm dm p m (ew, eh) = Inr px \<and>
       resolution_float fl sm dm p m (ew, eh) = Inr (\<lceil>fl (px * ew)\<rceil>, \<lceil>fl (px * eh)\<rceil>) \<and>
       (\<forall>host camera target direction path st tobj.
          float_round host = fl \<and>
          map_of (scene_objects st) target = Some tobj \<and>
          padded_viewsize fl direction (dimensions tobj)
            (orthobatch_imgPadding (window_manager st)) = (ew, eh) \<and>
          max_image_size_of (orthobatch_maxImgSize (window_manager st)) = Inr m \<and>
          orthobatch_scaleMode (window_manager st) = sm \<and>
          orthobatch_imgDivideMode (window_manager st) = dm \<and>
          orthobatch_imgSize (window_manager st) = p \<longrightarrow>
          shoottarget host camera target direction path st =
            render host path m
              (st\<lparr>scene_render := (scene_render st)
                 \<lparr>resolution_x := clamp_resolution \<lceil>fl (px * ew)\<rceil>,
                  resolution_y := clamp_resolution \<lceil>fl (px * eh)\<rceil>\<rparr>\<rparr>))) \<and>
    (\<forall>r. clamp_resolution r = (if r < 4 then 4 else if 65536 < r then 65536 else r))"
proof -
  note fl = assms(1)
  have pos: "0 < max ew eh" and nz: "max ew eh \<noteq> 0" using assms by simp_all
  have same: "px_per_unit_float fl samesize dm p m (ew, eh) = Inr (fl (of_int m / max ew eh))"
    using nz by (simp add: px_per_unit_float_def float_div_def)
  have longer: "max \<lceil>fl (fl (of_int m / max ew eh) * ew)\<rceil> \<lceil>fl (fl (of_int m / max ew eh) * eh)\<rceil>
          \<in> {m, m + 1}"
    if "m \<le> 65536" "1 / 2 ^ 1000 \<le> max ew eh" "max ew eh \<le> 2 ^ 1000"
  proof -
    have "0 \<le> of_int m / max ew eh" using pos assms by simp
    then have q: "0 \<le> fl (of_int m / max ew eh)" by (rule rounding_nonneg[OF fl])
    have "max \<lceil>fl (fl (of_int m / max ew eh) * ew)\<rceil> \<lceil>fl (fl (of_int m / max ew eh) * eh)\<rceil>
          = \<lceil>fl (fl (of_int m / max ew eh) * max ew eh)\<rceil>"
      using assms q by (intro max_ceiling_rounded) simp_all
    with round_trip_bound[OF fl \<open>0 < m\<close> that] show ?thesis by auto
  qed
  have red: "px_per_unit_float fl uniformscale reduceres p m (ew, eh) =
      Inr (if m < max \<lceil>fl (of_int p * ew)\<rceil> \<lceil>fl (of_int p * eh)\<rceil>
           then fl (of_int m / max ew eh) else of_int p)"
    using nz reduceres_condition_rounded[OF assms, of p]
    by (simp add: px_per_unit_float_def float_div_def)
  have even: "px_per_unit_float fl uniformscale evensize p m (ew, eh) = Inr (of_int p)"
    by (simp add: px_per_unit_float_def)
  have maxs: "px_per_unit_float fl uniformscale maxsize p m (ew, eh) = Inr (of_int p)"
    by (simp add: px_per_unit_float_def)
  obtain px where px: "px_per_unit_float fl sm dm p m (ew, eh) = Inr px"
    using same red even maxs by (cases sm; cases dm) auto
  then have res: "resolution_float fl sm dm p m (ew, eh) = Inr (\<lceil>fl (px * ew)\<rceil>, \<lceil>fl (px * eh)\<rceil>)"
    by (simp add: resolution_float_def)
  have shoot: "shoottarget host camera target direction path st =
            render host path m
              (st\<lparr>scene_render := (scene_render st)
                 \<lparr>resolution_x := clamp_resolution \<lceil>fl (px * ew)\<rceil>,
                  resolution_y := clamp_resolution \<lceil>fl (px * eh)\<rceil>\<rparr>\<rparr>)"
    if "float_round host = fl" "map_of (scene_objects st) target = Some tobj"
       "padded_viewsize fl direction (dimensions tobj)
            (orthobatch_imgPadding (window_manager st)) = (ew, eh)"
       "max_image_size_of (orthobatch_maxImgSize (window_manager st)) = Inr m"
       "orthobatch_scaleMode (window_manager st) = sm"
       "orthobatch_imgDivideMode (window_manager st) = dm"
       "orthobatch_imgSize (window_manager st) = p"
    for host camera target direction path st tobj
    by (rule shoottarget_render[OF that(2) that(4)]) (simp add: that res)
  have clamp: "clamp_resolution r = (if r < 4 then 4 else if 65536 < r then 65536 else r)" for r
    by (simp add: clamp_resolution_def)
  from px res shoot have ex: "\<exists>px. px_per_unit_float fl sm dm p m (ew, eh) = Inr px \<and>
       resolution_float fl sm dm p m (ew, eh) = Inr (\<lceil>fl (px * ew)\<rceil>, \<lceil>fl (px * eh)\<rceil>) \<and>
       (\<forall>host camera target direction path st tobj.
          float_round host = fl \<and>
          map_of (scene_objects st) target = Some tobj \<and>
          padded_viewsize fl direction (dimensions tobj)
            (orthobatch_imgPadding (window_manager st)) = (ew, eh) \<and>
          max_image_size_of (orthobatch_maxImgSize (window_manager st)) = Inr m \<and>
          orthobatch_scaleMode (window_manager st) = sm \<and>
          orthobatch_imgDivideMode (window_manager st) = dm \<and>
          orthobatch_imgSize (window_manager st) = p \<longrightarrow>
          shoottarget host camera target direction path st =
            render host path m
              (st\<lparr>scene_render := (scene_render st)
                 \<lparr>resolution_x := clamp_resolution \<lceil>fl (px * ew)\<rceil>,
                  resolution_y := clamp_resolution \<lceil>fl (px * eh)\<rceil>\<rparr>\<rparr>))"
    by blast
  from same longer red even maxs ex clamp show ?thesis by blast
qed

text \<open>
  The examples of the specification: extent \<open>(2, 1)\<close> under a cap of 1024 gives
  1024 by 512 at 512 pixels per unit; extent \<open>(10, 10)\<close> at 256 pixels per unit is
  reduced to 102.4 pixels per unit and 1024 by 1024, and left at 2560 by 2560 for the
  tiler. The cube of the example scene is rendered at 512 by 512.
\<close>

theorem resolution_policy_rounded_witness:
  "double_rounding (\<lambda>x. x) \<and> (0::real) < 2 \<and> (0::real) < 1 \<and> (0::int) < 1024 \<and>
   px_per_unit_float (\<lambda>x. x) samesize maxsize 256 1024 (2, 1) = Inr 512 \<and>
   resolution_float (\<lambda>x. x) samesize maxsize 256 1024 (2, 1) = Inr (1024, 512) \<and>
   px_per_unit_float (\<lambda>x. x) uniformscale reduceres 256 1024 (10, 10) = Inr (1024 / 10) \<and>
   resolution_float (\<lambda>x. x) uniformscale reduceres 256 1024 (10, 10) = Inr (1024, 1024) \<and>
   resolution_float (\<lambda>x. x) uniformscale maxsize 256 1024 (10, 10) = Inr (2560, 2560) \<and>
   shoottarget example_host 0 0 dir_Z ''/out/c_Z'' example_scene =
     render example_host ''/out/c_Z'' 4096
       (example_scene\<lparr>scene_render := example_render\<lparr>resolution_x := 512, resolution_y := 512\<rparr>\<rparr>)"
proof -
  have idr: "double_rounding (\<lambda>x. x)" by (simp add: double_rounding_def)
  note a = resolution_policy_rounded [OF idr, of 2 1 1024 maxsize 256 samesize]
  note b = resolution_policy_rounded [OF idr, of 10 10 1024 maxsize 256 uniformscale]
  note c = resolution_policy_rounded [OF idr, of 10 10 1024 reduceres 256 uniformscale]
  note d = resolution_policy_rounded [OF idr, of 2 2 4096 maxsize 256 uniformscale]
  have 1: "px_per_unit_float (\<lambda>x. x) samesize maxsize 256 1024 (2, 1) = Inr 512"
    using a by simp
  from a obtain px where "px_per_unit_float (\<lambda>x. x) samesize maxsize 256 1024 (2, 1) = Inr px"
    and r: "resolution_float (\<lambda>x. x) samesize maxsize 256 1024 (2, 1) =
              Inr (\<lceil>px * 2\<rceil>, \<lceil>px * 1\<rceil>)"
    by auto
  with 1 have "px = 512" by simp
  with r have 2: "resolution_float (\<lambda>x. x) samesize maxsize 256 1024 (2, 1) = Inr (1024, 512)"
    by simp
  have 3: "px_per_unit_float (\<lambda>x. x) uniformscale reduceres 256 1024 (10, 10) = Inr (1024 / 10)"
    using c by simp
  from c obtain px where
    "px_per_unit_float (\<lambda>x. x) uniformscale reduceres 256 1024 (10, 10) = Inr px"
    and r: "resolution_float (\<lambda>x. x) uniformscale reduceres 256 1024 (10, 10) =
              Inr (\<lceil>px * 10\<rceil>, \<lceil>px * 10\<rceil>)"
    by auto
  with 3 have "px = 1024 / 10" by simp
  with r have 4: "resolution_float (\<lambda>x. x) uniformscale reduceres 256 1024 (10, 10) =
      Inr (1024, 1024)"
    by simp
  have b1: "px_per_unit_float (\<lambda>x. x) uniformscale maxsize 256 1024 (10, 10) = Inr 256"
    using b by simp
  from b obtain px where
    "px_per_unit_float (\<lambda>x. x) uniformscale maxsize 256 1024 (10, 10) = Inr px"
    and r: "resolution_float (\<lambda>x. x) uniformscale maxsize 256 1024 (10, 10) =
              Inr (\<lceil>px * 10\<rceil>, \<lceil>px * 10\<rceil>)"
    by auto
  with b1 have "px = 256" by simp
  with r have 5: "resolution_float (\<lambda>x. x) uniformscale maxsize 256 1024 (10, 10) =
      Inr (2560, 2560)"
    by simp
  have d1: "px_per_unit_float (\<lambda>x. x) uniformscale maxsize 256 4096 (2, 2) = Inr 256"
    using d by simp
  from d obtain px where
    "px_per_unit_float (\<lambda>x. x) uniformscale maxsize 256 4096 (2, 2) = Inr px"
    and r: "\<forall>host camera target direction path st tobj.
          float_round host = (\<lambda>x. x) \<and>
          map_of (scene_objects st) target = Some tobj \<and>
          padded_viewsize (\<lambda>x. x) direction (dimensions tobj)
            (orthobatch_imgPadding (window_manager st)) = (2, 2) \<and>
          max_image_size_of (orthobatch_maxImgSize (window_manager st)) = Inr 4096 \<and>
          orthobatch_scaleMode (window_manager st) = uniformscale \<and>
          orthobatch_imgDivideMode (window_manager st) = maxsize \<and>
          orthobatch_imgSize (window_manager st) = 256 \<longrightarrow>
          shoottarget host camera target direction path st =
            render host path 4096
              (st\<lparr>scene_render := (scene_render st)
                 \<lparr>resolution_x := clamp_resolution \<lceil>px * 2\<rceil>,
                  resolution_y := clamp_resolution \<lceil>px * 2\<rceil>\<rparr>\<rparr>)"
    by auto
  with d1 have px: "px = 256" by simp
  from r have "shoottarget example_host 0 0 dir_Z ''/out/c_Z'' example_scene =
            render example_host ''/out/c_Z'' 4096
              (example_scene\<lparr>scene_render := (scene_render example_scene)
                 \<lparr>resolution_x := clamp_resolution \<lceil>px * 2\<rceil>,
                  resolution_y := clamp_resolution \<lceil>px * 2\<rceil>\<rparr>\<rparr>)"
    using example_shoot_inputs by blast
  then have 6: "shoottarget example_host 0 0 dir_Z ''/out/c_Z'' example_scene =
     render example_host ''/out/c_Z'' 4096
       (example_scene\<lparr>scene_render := example_render\<lparr>resolution_x := 512, resolution_y := 512\<rparr>\<rparr>)"
    by (simp add: px example_shoot_inputs clamp_resolution_def)
  show ?thesis using idr 1 2 3 4 5 6 by simp
qed


text \<open>With a rounding that changes nothing the computation is the exact one.\<close>

lemma float_div_exact: "float_div (\<lambda>x. x) a b = py_truediv a b"
  by (simp add: float_div_def py_truediv_def)

lemma px_per_unit_float_exact:
  "px_per_unit_float (\<lambda>x. x) sm dm p m e = px_per_unit_of sm dm p m e"
  by (cases sm) (simp_all add: px_per_unit_float_def px_per_unit_of_def float_div_exact)

lemma resolution_float_exact:
  "resolution_float (\<lambda>x. x) sm dm p m e = resolution_of sm dm p m e"
  by (simp add: resolution_float_def resolution_of_def px_per_unit_float_exact)


text \<open>
  For the zero extent no rounding helps: the uniform output size divides by zero, and
  uniform pixels per unit computes 0 by 0, of which Blender stores 4 by 4.
\<close>

lemma zero_extent_rounded:
  assumes "double_rounding fl"
  shows "resolution_float fl samesize dm p m (0, 0) = Inl ZeroDivisionError"
    and "resolution_float fl uniformscale maxsize p m (0, 0) = Inr (0, 0)"
    and "clamp_resolution 0 = 4"
  using assms
  by (simp_all add: resolution_float_def px_per_unit_float_def float_div_def double_rounding_def
      clamp_resolution_def)

text \<open>
  C4, as stated, fails: for the zero extent the uniform output size divides by zero, and
  uniform pixels per unit yields a resolution of 0 by 0 without any report; an extent
  with one zero component yields a zero component.
\<close>

theorem zero_extent_counterexample:
  "resolution_of samesize maxsize 256 4096 (0, 0) = Inl ZeroDivisionError \<and>
   resolution_of uniformscale maxsize 256 4096 (0, 0) = Inr (0, 0) \<and>
   resolution_of uniformscale maxsize 256 4096 (1, 0) = Inr (256, 0)"
  by (simp add: resolution_of_def px_per_unit_of_def py_truediv_def)

text \<open>
  C4, amended. For a view extent with both components positive, positive pixels per
  unit and a positive cap, the resolution computation raises nothing and both
  components of the resolution are at least 1, in every scale and divide mode.
\<close>

theorem resolution_positive:
  fixes ew eh :: real
  assumes "0 < ew" and "0 < eh" and "0 < p" and "0 < m"
  shows "\<exists>rx ry. resolution_of sm dm p m (ew, eh) = Inr (rx, ry) \<and> 1 \<le> rx \<and> 1 \<le> ry"
proof -
  have nz: "max ew eh \<noteq> 0" and pos: "0 < max ew eh" using assms by simp_all
  obtain px where px: "px_per_unit_of sm dm p m (ew, eh) = Inr px" and "0 < px"
  proof (cases "px_per_unit_of sm dm p m (ew, eh) = Inr (of_int p)")
    case True
    then show ?thesis using that assms by simp
  next
    case False
    then have "px_per_unit_of sm dm p m (ew, eh) = Inr (of_int m / max ew eh)"
      using nz by (auto simp: px_per_unit_of_def py_truediv_def split: ScaleMode.splits if_splits)
    moreover have "0 < of_int m / max ew eh" using pos assms by simp
    ultimately show ?thesis using that by blast
  qed
  have "0 < px * ew" "0 < px * eh" using \<open>0 < px\<close> assms by simp_all
  then have "1 \<le> \<lceil>px * ew\<rceil>" "1 \<le> \<lceil>px * eh\<rceil>"
    by (simp_all add: le_ceiling_iff flip: zero_less_ceiling)
  then show ?thesis using px by (simp add: resolution_of_def)
qed

theorem resolution_positive_witness:
  "(0::real) < 2 \<and> (0::real) < 1 \<and> (0::int) < 256 \<and> (0::int) < 4096 \<and>
   (\<exists>rx ry. resolution_of uniformscale maxsize 256 4096 (2, 1) = Inr (rx, ry) \<and>
      1 \<le> rx \<and> 1 \<le> ry)"
  using resolution_positive [of 2 1 256 4096 uniformscale maxsize] by simp

subsection \<open>Tiled rendering\<close>

lemma run_each_logged:
  assumes step: "\<And>x s. x \<in> set xs \<Longrightarrow> P s \<Longrightarrow>
      \<exists>s' R. body x s = (None, s') \<and> P s' \<and> rendered s' = rendered s @ R \<and> map view R = L x"
    and "P s"
  shows "\<exists>s' R. run_each body xs s = (None, s') \<and> P s' \<and> rendered s' = rendered s @ R \<and>
           map view R = concat (map L xs)"
  using assms
proof (induction xs arbitrary: s)
  case Nil
  then show ?case by simp
next
  case (Cons x xs)
  from Cons.prems(1)[of x s] Cons.prems(2)
  obtain s1 R1 where b: "body x s = (None, s1)" and p1: "P s1"
    and r1: "rendered s1 = rendered s @ R1" and v1: "map view R1 = L x"
    by auto
  have "\<exists>s' R. run_each body xs s1 = (None, s') \<and> P s' \<and> rendered s' = rendered s1 @ R \<and>
           map view R = concat (map L xs)"
    by (rule Cons.IH) (use Cons.prems(1) p1 in auto)
  then obtain s2 R2 where b2: "run_each body xs s1 = (None, s2)" and p2: "P s2"
    and r2: "rendered s2 = rendered s1 @ R2" and v2: "map view R2 = concat (map L xs)"
    by blast
  show ?case
    using b b2 p2 r1 r2 v1 v2 by (intro exI[of _ s2] exI[of _ "R1 @ R2"]) simp
qed

lemma run_grid_logged:
  assumes tile: "\<And>i j s. i < nx \<Longrightarrow> j < ny \<Longrightarrow> P s \<Longrightarrow>
      \<exists>s' R. body (int i) (int j) s = (None, s') \<and> P s' \<and> rendered s' = rendered s @ R \<and>
         map view R = [T i j]"
    and "P s"
  shows "\<exists>s' R. run_each (\<lambda>row. run_each (body row) (py_range (int ny))) (py_range (int nx)) s = (None, s')
           \<and> P s' \<and> rendered s' = rendered s @ R \<and>
           map view R = concat (map (\<lambda>i. map (T i) [0..<ny]) [0..<nx])"
proof -
  have inner: "\<exists>s' R. run_each (body (int i)) (py_range (int ny)) s = (None, s') \<and> P s' \<and>
        rendered s' = rendered s @ R \<and> map view R = map (T i) [0..<ny]"
    if "i < nx" "P s" for i s
  proof -
    have "\<exists>s' R. run_each (body (int i)) (py_range (int ny)) s = (None, s') \<and> P s' \<and>
        rendered s' = rendered s @ R \<and>
        map view R = concat (map (\<lambda>c. [T i (nat c)]) (py_range (int ny)))"
      by (rule run_each_logged[where P = P]) (use that tile in \<open>auto simp: py_range_def\<close>)
    then show ?thesis by (simp add: py_range_def comp_def concat_map_singleton)
  qed
  have "\<exists>s' R. run_each (\<lambda>row. run_each (body row) (py_range (int ny))) (py_range (int nx)) s = (None, s')
           \<and> P s' \<and> rendered s' = rendered s @ R \<and>
           map view R = concat (map (\<lambda>r. map (T (nat r)) [0..<ny]) (py_range (int nx)))"
    by (rule run_each_logged[where P = P]) (use inner assms(2) in \<open>auto simp: py_range_def\<close>)
  then show ?thesis by (simp add: py_range_def comp_def)
qed


lemma tileCount_pos:
  assumes "0 < m" and "0 < w"
  shows "1 \<le> tileCount w m"
proof -
  have "0 < real_of_int w / real_of_int m" using assms by simp
  then have "0 < tileCount w m" by (simp add: tileCount_def less_ceiling_iff)
  then show ?thesis by simp
qed

lemma tileCount_pos_iff: "0 < m \<Longrightarrow> (0 < tileCount w m) = (0 < w)"
  by (simp add: tileCount_def less_ceiling_iff zero_less_divide_iff)

lemma tileCount_below:
  assumes "0 < m" and "int i < tileCount w m"
  shows "m * int i < w"
proof -
  have "real_of_int (int i) < real_of_int w / real_of_int m"
    using assms(2) by (simp add: tileCount_def less_ceiling_iff)
  then have "real_of_int (int i) * real_of_int m < real_of_int w"
    using assms(1) by (simp add: pos_less_divide_eq)
  then have "real_of_int (int i * m) < real_of_int w" by simp
  then have "int i * m < w" by (simp only: of_int_less_iff)
  then show ?thesis by (simp add: mult.commute)
qed

lemma tileCount_above:
  assumes "0 < m"
  shows "w \<le> m * tileCount w m"
proof -
  have "real_of_int w / real_of_int m \<le> real_of_int (tileCount w m)"
    by (simp add: tileCount_def)
  then have "real_of_int w \<le> real_of_int (tileCount w m) * real_of_int m"
    using assms by (simp add: pos_divide_le_eq)
  then have "real_of_int w \<le> real_of_int (tileCount w m * m)" by simp
  then have "w \<le> tileCount w m * m" by (simp only: of_int_le_iff)
  then show ?thesis by (simp add: mult.commute)
qed

lemma tile_boundary_zero:
  "0 < w \<Longrightarrow> mode \<noteq> reduceres \<Longrightarrow> tile_boundary mode m w 0 = 0"
  by (cases mode) (simp_all add: tile_boundary_def)

lemma tile_boundary_one:
  assumes "0 < w" "0 < m" "mode \<noteq> reduceres"
  shows "tile_boundary mode m w (nat (tileCount w m)) = 1"
proof (cases mode)
  case evensize
  then show ?thesis using tileCount_pos[OF assms(2,1)] by (simp add: tile_boundary_def)
next
  case maxsize
  have "1 \<le> tileCount w m" using tileCount_pos[OF assms(2,1)] .
  then have "int (nat (tileCount w m)) = tileCount w m" by simp
  then have "min (m * int (nat (tileCount w m))) w = w"
    using tileCount_above[OF assms(2), of w] by simp
  then show ?thesis using maxsize assms by (simp add: tile_boundary_def)
qed (use assms in simp)

lemma tile_boundary_mono:
  assumes "0 < w" "0 < m" "mode \<noteq> reduceres" "i < nat (tileCount w m)"
  shows "tile_boundary mode m w i < tile_boundary mode m w (Suc i)"
proof (cases mode)
  case evensize
  have "0 < real_of_int (tileCount w m)" using tileCount_pos[OF assms(2,1)] by simp
  then show ?thesis using evensize by (simp add: tile_boundary_def divide_strict_right_mono)
next
  case maxsize
  have "int i < tileCount w m" using assms(4) by simp
  then have lt: "m * int i < w" using tileCount_below[OF assms(2)] by simp
  then have "min (m * int i) w < min (m * int (Suc i)) w"
    using assms(2) by (simp add: min_def algebra_simps)
  then have "real_of_int (min (m * int i) w) < real_of_int (min (m * int (Suc i)) w)"
    by (simp only: of_int_less_iff)
  then show ?thesis using maxsize assms(1) by (simp add: tile_boundary_def divide_strict_right_mono)
qed (use assms in simp)

lemma render_tile_box:
  assumes ok: "\<forall>r. render_op_ok host r"
    and inv: "tiling_inv wm w h s"
    and mode: "orthobatch_imgDivideMode wm = mode" "mode \<noteq> reduceres"
    and pos: "0 < w" "0 < h" "0 < m"
    and ij: "i < nat (tileCount w m)" "j < nat (tileCount h m)"
  shows "\<exists>s' R. render_tile host basepath m (tileCount w m) (tileCount h m) (int i) (int j) s
             = (None, s') \<and>
           tiling_inv wm w h s' \<and> rendered s' = rendered s @ R \<and>
           map crop_box R =
             [(tile_boundary mode m w i, tile_boundary mode m w (Suc i),
               tile_boundary mode m h j, tile_boundary mode m h (Suc j))]"
proof (cases mode)
  case evensize
  have "tileCount w m \<noteq> 0" "tileCount h m \<noteq> 0" using ij by auto
  then show ?thesis
    using ok inv mode evensize
    by (simp add: render_tile_def Let_def tiling_inv_def py_truediv_def bpy_ops_render_render_def
        crop_box_def tile_boundary_def add.commute)
next
  case maxsize
  have "m * int i < w" "m * int j < h"
    using tileCount_below[OF pos(3), of i w] tileCount_below[OF pos(3), of j h] ij by simp_all
  then have "min (m * int i) w = m * int i" "min (m * int j) h = m * int j" by simp_all
  then show ?thesis
    using ok inv mode maxsize pos
    by (simp add: render_tile_def Let_def tiling_inv_def bpy_ops_render_render_def
        crop_box_def tile_boundary_def add.commute algebra_simps)
qed (use mode in simp)

lemma render_grid_boxes:
  assumes pos: "0 < w" "0 < h" "0 < m"
    and res: "resolution_x (scene_render st) = w" "resolution_y (scene_render st) = h"
    and ok: "\<forall>r. render_op_ok host r"
    and mode: "orthobatch_imgDivideMode (window_manager st) = mode" "mode \<noteq> reduceres"
  shows "fst (render host basepath m st) = None \<and>
         tile_boxes host basepath m st =
           grid_boxes (tile_boundary mode m w) (tile_boundary mode m h)
             (nat (tileCount w m)) (nat (tileCount h m))"
proof (cases "tileCount w m = 1 \<and> tileCount h m = 1")
  case True
  have b: "tile_boundary mode m w 0 = 0" "tile_boundary mode m h 0 = 0"
      "tile_boundary mode m w (Suc 0) = 1" "tile_boundary mode m h (Suc 0) = 1"
    using tile_boundary_zero[of w mode m] tile_boundary_zero[of h mode m]
      tile_boundary_one[of w m mode] tile_boundary_one[of h m mode] pos mode(2) True
    by simp_all
  show ?thesis
    using True pos res ok b
    by (simp add: render_def py_truediv_def tileCount_def[symmetric] Let_def
        bpy_ops_render_render_def tile_boxes_def tiles_written_def crop_box_def grid_boxes_def)
next
  case False
  define st1 where "st1 = st\<lparr>scene_render := (scene_render st)
      \<lparr>use_border := True, use_crop_to_border := True\<rparr>\<rparr>"
  define nx where "nx = nat (tileCount w m)"
  define ny where "ny = nat (tileCount h m)"
  have nxy: "int nx = tileCount w m" "int ny = tileCount h m"
    using tileCount_pos[OF pos(3,1)] tileCount_pos[OF pos(3,2)] by (simp_all add: nx_def ny_def)
  have inv1: "tiling_inv (window_manager st) w h st1"
    using res by (simp add: tiling_inv_def st1_def)
  have r1: "rendered st1 = rendered st" by (simp add: st1_def)
  have loop: "\<exists>s' R. run_each (\<lambda>row. run_each
         (render_tile host basepath m (tileCount w m) (tileCount h m) row) (py_range (int ny)))
         (py_range (int nx)) st1 = (None, s') \<and>
       tiling_inv (window_manager st) w h s' \<and> rendered s' = rendered st1 @ R \<and>
       map crop_box R = concat (map (\<lambda>i. map (\<lambda>j.
          (tile_boundary mode m w i, tile_boundary mode m w (Suc i),
           tile_boundary mode m h j, tile_boundary mode m h (Suc j))) [0..<ny]) [0..<nx])"
    by (rule run_grid_logged[where P = "tiling_inv (window_manager st) w h"])
       (use render_tile_box[OF ok _ mode pos] inv1 in \<open>auto simp: nx_def ny_def\<close>)
  have "render host basepath m st = run_each (\<lambda>row. run_each
         (render_tile host basepath m (tileCount w m) (tileCount h m) row) (py_range (int ny)))
         (py_range (int nx)) st1"
    using False pos res
    by (auto simp: render_def py_truediv_def tileCount_def[symmetric] Let_def st1_def nxy)
  with loop r1 show ?thesis
    by (auto simp: tile_boxes_def tiles_written_def grid_boxes_def nx_def ny_def)
qed

lemma concat_grid_eq:
  "concat (map (\<lambda>i. map (f i) [0..<ny]) [0..<nx]) = map (\<lambda>k. f (k div ny) (k mod ny)) [0..<nx * ny]"
proof (induction nx)
  case 0
  then show ?case by simp
next
  case (Suc nx)
  have "[0..<nx * ny + ny] = [0..<nx * ny] @ [nx * ny..<nx * ny + ny]"
    by (rule upt_add_eq_append) simp
  moreover have "[nx * ny..<nx * ny + ny] = map (\<lambda>j. j + nx * ny) [0..<ny]"
    by (simp only: map_add_upt add.commute)
  ultimately have "[0..<Suc nx * ny] = [0..<nx * ny] @ map (\<lambda>j. j + nx * ny) [0..<ny]"
    by (simp add: add.commute)
  moreover have "map (\<lambda>k. f (k div ny) (k mod ny)) (map (\<lambda>j. j + nx * ny) [0..<ny]) = map (f nx) [0..<ny]"
    by (rule nth_equalityI) (simp_all add: div_mult_self3)
  ultimately show ?case using Suc by simp
qed

lemma grid_boxes_nth:
  "k < nx * ny \<Longrightarrow> grid_boxes bx gy nx ny ! k =
     (bx (k div ny), bx (Suc (k div ny)), gy (k mod ny), gy (Suc (k mod ny)))"
  by (simp add: grid_boxes_def concat_grid_eq)

lemma grid_boxes_length: "length (grid_boxes bx gy nx ny) = nx * ny"
  by (simp add: grid_boxes_def concat_grid_eq)

lemma strict_mono_upto:
  fixes b :: "nat \<Rightarrow> real"
  assumes "\<And>i. i < n \<Longrightarrow> b i < b (Suc i)" and "i \<le> j" and "j \<le> n"
  shows "b i \<le> b j"
  using assms(2,3)
proof (induction j)
  case 0
  then show ?case by simp
next
  case (Suc j)
  show ?case
  proof (cases "i = Suc j")
    case True
    then show ?thesis by simp
  next
    case False
    then have "b i \<le> b j" using Suc by simp
    moreover have "b j < b (Suc j)" using assms(1) Suc.prems by simp
    ultimately show ?thesis by simp
  qed
qed

lemma interval_cover:
  fixes b :: "nat \<Rightarrow> real"
  assumes "b 0 = 0" and "b n = 1" and "0 \<le> x" and "x \<le> 1"
  shows "\<exists>i<n. b i \<le> x \<and> x \<le> b (Suc i)"
proof -
  have n: "0 < n" using assms(1,2) by (cases n) auto
  define i where "i = (LEAST i. x \<le> b (Suc i))"
  have ex: "x \<le> b (Suc (n - 1))" using n assms by simp
  have i1: "x \<le> b (Suc i)" unfolding i_def using ex by (rule LeastI)
  have i2: "i \<le> n - 1" unfolding i_def using ex by (rule Least_le)
  have "b i \<le> x"
  proof (cases i)
    case 0
    then show ?thesis using assms by simp
  next
    case (Suc i')
    have "i' < i" using Suc by simp
    then have "\<not> x \<le> b (Suc i')" unfolding i_def by (rule not_less_Least)
    then show ?thesis using Suc by simp
  qed
  then show ?thesis using i1 i2 n by (intro exI[of _ i]) auto
qed

lemma telescope:
  fixes b :: "nat \<Rightarrow> real"
  shows "sum_list (map (\<lambda>i. b (Suc i) - b i) [0..<n]) = b n - b 0"
  by (induction n) simp_all

lemma sum_list_concat_map:
  fixes f :: "'a \<Rightarrow> real"
  shows "sum_list (map f (concat xss)) = sum_list (map (\<lambda>xs. sum_list (map f xs)) xss)"
  by (induction xss) simp_all

lemma grid_area:
  "sum_list (map box_area (grid_boxes bx gy nx ny)) = (bx nx - bx 0) * (gy ny - gy 0)"
proof -
  have "sum_list (map box_area (grid_boxes bx gy nx ny)) =
        sum_list (map (\<lambda>i. sum_list (map (\<lambda>j. (bx (Suc i) - bx i) * (gy (Suc j) - gy j)) [0..<ny])) [0..<nx])"
    by (simp add: grid_boxes_def sum_list_concat_map comp_def box_area_def)
  also have "\<dots> = sum_list (map (\<lambda>i. (bx (Suc i) - bx i) * (gy ny - gy 0)) [0..<nx])"
    by (simp add: sum_list_const_mult telescope)
  also have "\<dots> = (bx nx - bx 0) * (gy ny - gy 0)"
    by (simp add: sum_list_mult_const telescope)
  finally show ?thesis .
qed

lemma grid_partition:
  fixes bx gy :: "nat \<Rightarrow> real"
  assumes bx: "\<And>i. i < nx \<Longrightarrow> bx i < bx (Suc i)" and bx0: "bx 0 = 0" and bxn: "bx nx = 1"
    and gy: "\<And>j. j < ny \<Longrightarrow> gy j < gy (Suc j)" and by0: "gy 0 = 0" and byn: "gy ny = 1"
  defines "boxes \<equiv> grid_boxes bx gy nx ny"
  shows "(\<forall>p. in_unit_square p \<longleftrightarrow> (\<exists>b\<in>set boxes. in_box b p)) \<and>
         (\<forall>k l. k < l \<and> l < length boxes \<longrightarrow>
            \<not> (\<exists>p. inside_box (boxes ! k) p \<and> inside_box (boxes ! l) p)) \<and>
         sum_list (map box_area boxes) = 1"
proof -
  have ny: "0 < ny" using by0 byn by (cases ny) auto
  have nx: "0 < nx" using bx0 bxn by (cases nx) auto
  have mx: "\<And>i j. i \<le> j \<Longrightarrow> j \<le> nx \<Longrightarrow> bx i \<le> bx j" using strict_mono_upto[of nx bx] bx by blast
  have my: "\<And>i j. i \<le> j \<Longrightarrow> j \<le> ny \<Longrightarrow> gy i \<le> gy j" using strict_mono_upto[of ny gy] gy by blast
  have cover: "\<forall>p. in_unit_square p \<longleftrightarrow> (\<exists>b\<in>set boxes. in_box b p)"
  proof (intro allI iffI)
    fix p :: "real \<times> real"
    assume "in_unit_square p"
    then have p: "0 \<le> fst p" "fst p \<le> 1" "0 \<le> snd p" "snd p \<le> 1" by (simp_all add: in_unit_square_def)
    obtain i where i: "i < nx" "bx i \<le> fst p" "fst p \<le> bx (Suc i)"
      using interval_cover[OF bx0 bxn p(1,2)] by blast
    obtain j where j: "j < ny" "gy j \<le> snd p" "snd p \<le> gy (Suc j)"
      using interval_cover[OF by0 byn p(3,4)] by blast
    have "(bx i, bx (Suc i), gy j, gy (Suc j)) \<in> set boxes"
      using i(1) j(1) by (force simp: boxes_def grid_boxes_def)
    moreover have "in_box (bx i, bx (Suc i), gy j, gy (Suc j)) p"
      using i j by (simp add: in_box_def)
    ultimately show "\<exists>b\<in>set boxes. in_box b p" by blast
  next
    fix p :: "real \<times> real"
    assume "\<exists>b\<in>set boxes. in_box b p"
    then obtain i j where ij: "i < nx" "j < ny" and b: "in_box (bx i, bx (Suc i), gy j, gy (Suc j)) p"
      by (auto simp: boxes_def grid_boxes_def)
    have "0 \<le> bx i" using mx[of 0 i] ij bx0 by simp
    moreover have "bx (Suc i) \<le> 1" using mx[of "Suc i" nx] ij bxn by simp
    moreover have "0 \<le> gy j" using my[of 0 j] ij by0 by simp
    moreover have "gy (Suc j) \<le> 1" using my[of "Suc j" ny] ij byn by simp
    ultimately show "in_unit_square p" using b by (simp add: in_box_def in_unit_square_def)
  qed
  have apart: "\<forall>k l. k < l \<and> l < length boxes \<longrightarrow>
            \<not> (\<exists>p. inside_box (boxes ! k) p \<and> inside_box (boxes ! l) p)"
  proof (intro allI impI notI)
    fix k l
    assume kl: "k < l \<and> l < length boxes"
      and ex: "\<exists>p. inside_box (boxes ! k) p \<and> inside_box (boxes ! l) p"
    then have l: "l < nx * ny" and k: "k < nx * ny" by (simp_all add: boxes_def grid_boxes_length)
    from ex obtain p where p: "inside_box (boxes ! k) p" "inside_box (boxes ! l) p" by blast
    have dl: "l div ny < nx" using l by (simp add: less_mult_imp_div_less)
    have ml: "l mod ny < ny" using ny by simp
    have mk: "k mod ny < ny" using ny by simp
    have pk: "bx (k div ny) < fst p" "fst p < bx (Suc (k div ny))"
         "gy (k mod ny) < snd p" "snd p < gy (Suc (k mod ny))"
      using p(1) k by (simp_all add: boxes_def grid_boxes_nth inside_box_def)
    have pl: "bx (l div ny) < fst p" "fst p < bx (Suc (l div ny))"
         "gy (l mod ny) < snd p" "snd p < gy (Suc (l mod ny))"
      using p(2) l by (simp_all add: boxes_def grid_boxes_nth inside_box_def)
    have "k div ny \<le> l div ny" using kl by (simp add: div_le_mono)
    then consider "k div ny < l div ny" | "k div ny = l div ny" by linarith
    then show False
    proof cases
      case 1
      then have "bx (Suc (k div ny)) \<le> bx (l div ny)" using mx[of "Suc (k div ny)" "l div ny"] dl by simp
      then show False using pk pl by simp
    next
      case 2
      have "k mod ny < l mod ny"
      proof (rule ccontr)
        assume "\<not> k mod ny < l mod ny"
        then have "l mod ny \<le> k mod ny" by simp
        then have "l div ny * ny + l mod ny \<le> l div ny * ny + k mod ny" by (rule add_left_mono)
        then have "l div ny * ny + l mod ny \<le> k div ny * ny + k mod ny" by (simp only: 2)
        then have "l \<le> k" by (simp only: div_mult_mod_eq)
        then show False using kl by simp
      qed
      then have "gy (Suc (k mod ny)) \<le> gy (l mod ny)" using my[of "Suc (k mod ny)" "l mod ny"] ml by simp
      then show False using pk pl by simp
    qed
  qed
  have area: "sum_list (map box_area boxes) = 1"
    by (simp add: boxes_def grid_area bx0 bxn by0 byn)
  from cover apart area show ?thesis by blast
qed


lemma render_tile_path:
  assumes ok: "\<forall>r. render_op_ok host r"
    and inv: "tiling_inv wm w h s"
    and m: "0 < m"
    and ij: "i < nat (tileCount w m)" "j < nat (tileCount h m)"
  shows "\<exists>s' R. render_tile host basepath m (tileCount w m) (tileCount h m) (int i) (int j) s
             = (None, s') \<and>
           tiling_inv wm w h s' \<and> rendered s' = rendered s @ R \<and>
           map (\<lambda>r. (render_filepath r, use_border r)) R = [(tile_path basepath i j, True)]"
proof -
  have c: "0 < tileCount w m" "0 < tileCount h m" using ij by auto
  then have "0 < w" "0 < h" using tileCount_pos_iff[OF m] by simp_all
  then show ?thesis
    using ok inv c
    by (cases "orthobatch_imgDivideMode wm")
       (simp_all add: render_tile_def Let_def tiling_inv_def py_truediv_def
          bpy_ops_render_render_def tile_path_def)
qed

lemma render_single:
  assumes "0 < m"
    and "resolution_x (scene_render st) = w" "resolution_y (scene_render st) = h"
    and "\<forall>r. render_op_ok host r"
    and "tileCount w m = 1 \<and> tileCount h m = 1"
  shows "fst (render host basepath m st) = None \<and>
         map (\<lambda>r. (render_filepath r, use_border r, crop_box r)) (tiles_written host basepath m st)
           = [(basepath, False, (0, 1, 0, 1))]"
  using assms
  by (simp add: render_def py_truediv_def tileCount_def[symmetric] Let_def
      bpy_ops_render_render_def tiles_written_def crop_box_def)

lemma render_grid_paths:
  assumes m: "0 < m"
    and res: "resolution_x (scene_render st) = w" "resolution_y (scene_render st) = h"
    and ok: "\<forall>r. render_op_ok host r"
    and many: "\<not> (tileCount w m = 1 \<and> tileCount h m = 1)"
  shows "fst (render host basepath m st) = None \<and>
         map (\<lambda>r. (render_filepath r, use_border r)) (tiles_written host basepath m st) =
           concat (map (\<lambda>row. map (\<lambda>col. (tile_path basepath row col, True))
                     [0..<nat (tileCount h m)]) [0..<nat (tileCount w m)])"
proof -
  define st1 where "st1 = st\<lparr>scene_render := (scene_render st)
      \<lparr>use_border := True, use_crop_to_border := True\<rparr>\<rparr>"
  define nx where "nx = nat (tileCount w m)"
  define ny where "ny = nat (tileCount h m)"
  have ranges: "py_range (tileCount w m) = py_range (int nx)"
      "py_range (tileCount h m) = py_range (int ny)"
    by (simp_all add: py_range_def nx_def ny_def)
  have inv1: "tiling_inv (window_manager st) w h st1"
    using res by (simp add: tiling_inv_def st1_def)
  have r1: "rendered st1 = rendered st" by (simp add: st1_def)
  have loop: "\<exists>s' R. run_each (\<lambda>row. run_each
         (render_tile host basepath m (tileCount w m) (tileCount h m) row) (py_range (int ny)))
         (py_range (int nx)) st1 = (None, s') \<and>
       tiling_inv (window_manager st) w h s' \<and> rendered s' = rendered st1 @ R \<and>
       map (\<lambda>r. (render_filepath r, use_border r)) R =
         concat (map (\<lambda>i. map (\<lambda>j. (tile_path basepath i j, True)) [0..<ny]) [0..<nx])"
    by (rule run_grid_logged[where P = "tiling_inv (window_manager st) w h"])
       (use render_tile_path[OF ok _ m] inv1 in \<open>auto simp: nx_def ny_def\<close>)
  have "render host basepath m st = run_each (\<lambda>row. run_each
         (render_tile host basepath m (tileCount w m) (tileCount h m) row) (py_range (int ny)))
         (py_range (int nx)) st1"
    using many m res
    by (auto simp: render_def py_truediv_def tileCount_def[symmetric] Let_def st1_def ranges)
  with loop r1 show ?thesis
    by (auto simp: tiles_written_def nx_def ny_def)
qed

text \<open>
  C1. For a target resolution \<open>w\<close> by \<open>h\<close> with both sides positive and a positive cap
  \<open>m\<close>, under either divide mode (equal sizes or maximum sizes) and with every render call
  succeeding, \<open>render\<close> raises nothing and the crop boxes of the images it writes form the
  grid over boundary coordinates that rise strictly from 0 to 1 along each axis: a tile's
  upper boundary is its neighbour's lower boundary. Hence a point lies in the unit square
  exactly if it lies in some box, two different tiles share no interior point, and the
  areas of the boxes sum to 1. (A render without tiling counts as the single box
  \<open>[0,1] \<times> [0,1]\<close>.)
\<close>

theorem tiles_partition_unit_square:
  assumes "0 < w" and "0 < h" and "0 < m"
    and "resolution_x (scene_render st) = w" and "resolution_y (scene_render st) = h"
    and "\<forall>r. render_op_ok host r"
    and "orthobatch_imgDivideMode (window_manager st) = mode"
    and "mode = evensize \<or> mode = maxsize"
  shows
   "fst (render host basepath m st) = None \<and>
    tile_boxes host basepath m st =
      grid_boxes (tile_boundary mode m w) (tile_boundary mode m h)
        (nat (tileCount w m)) (nat (tileCount h m)) \<and>
    (tile_boundary mode m w 0 = 0 \<and> tile_boundary mode m w (nat (tileCount w m)) = 1 \<and>
     (\<forall>i < nat (tileCount w m). tile_boundary mode m w i < tile_boundary mode m w (Suc i))) \<and>
    (tile_boundary mode m h 0 = 0 \<and> tile_boundary mode m h (nat (tileCount h m)) = 1 \<and>
     (\<forall>j < nat (tileCount h m). tile_boundary mode m h j < tile_boundary mode m h (Suc j))) \<and>
    (\<forall>p. in_unit_square p \<longleftrightarrow> (\<exists>b \<in> set (tile_boxes host basepath m st). in_box b p)) \<and>
    (\<forall>k l. k < l \<and> l < length (tile_boxes host basepath m st) \<longrightarrow>
       \<not> (\<exists>p. inside_box (tile_boxes host basepath m st ! k) p \<and>
                inside_box (tile_boxes host basepath m st ! l) p)) \<and>
    sum_list (map box_area (tile_boxes host basepath m st)) = 1"
proof -
  have mode: "mode \<noteq> reduceres" using assms(8) by auto
  note code = render_grid_boxes[OF assms(1-7) mode, of basepath]
  have bw: "tile_boundary mode m w 0 = 0" "tile_boundary mode m w (nat (tileCount w m)) = 1"
      "\<And>i. i < nat (tileCount w m) \<Longrightarrow> tile_boundary mode m w i < tile_boundary mode m w (Suc i)"
    using tile_boundary_zero[OF assms(1) mode] tile_boundary_one[OF assms(1,3) mode]
      tile_boundary_mono[OF assms(1,3) mode] by simp_all
  have bh: "tile_boundary mode m h 0 = 0" "tile_boundary mode m h (nat (tileCount h m)) = 1"
      "\<And>j. j < nat (tileCount h m) \<Longrightarrow> tile_boundary mode m h j < tile_boundary mode m h (Suc j)"
    using tile_boundary_zero[OF assms(2) mode] tile_boundary_one[OF assms(2,3) mode]
      tile_boundary_mono[OF assms(2,3) mode] by simp_all
  note part = grid_partition[of "nat (tileCount w m)" "tile_boundary mode m w"
      "nat (tileCount h m)" "tile_boundary mode m h", OF bw(3,1,2) bh(3,1,2)]
  from code have none: "fst (render host basepath m st) = None"
    and eq: "tile_boxes host basepath m st =
      grid_boxes (tile_boundary mode m w) (tile_boundary mode m h)
        (nat (tileCount w m)) (nat (tileCount h m))"
    by simp_all
  show ?thesis
    unfolding eq using none bw bh part by blast
qed

lemma example_frame_sel:
  "resolution_x (scene_render (example_frame w h mode)) = w"
  "resolution_y (scene_render (example_frame w h mode)) = h"
  "orthobatch_imgDivideMode (window_manager (example_frame w h mode)) = mode"
  by (simp_all add: example_frame_def)

lemma example_host_ok: "\<forall>r. render_op_ok example_host r"
  by (simp add: example_host_def)

text \<open>A 9 by 5 frame under a cap of 4: three by two tiles in both modes.\<close>

theorem tiles_partition_unit_square_witness:
  "fst (render example_host ''/out/cube_Z'' 4 (example_frame 9 5 evensize)) = None \<and>
   tile_boxes example_host ''/out/cube_Z'' 4 (example_frame 9 5 evensize) =
     [(0, 1/3, 0, 1/2), (0, 1/3, 1/2, 1), (1/3, 2/3, 0, 1/2), (1/3, 2/3, 1/2, 1),
      (2/3, 1, 0, 1/2), (2/3, 1, 1/2, 1)] \<and>
   sum_list (map box_area (tile_boxes example_host ''/out/cube_Z'' 4 (example_frame 9 5 evensize))) = 1 \<and>
   tile_boxes example_host ''/out/cube_Z'' 4 (example_frame 9 5 maxsize) =
     [(0, 4/9, 0, 4/5), (0, 4/9, 4/5, 1), (4/9, 8/9, 0, 4/5), (4/9, 8/9, 4/5, 1),
      (8/9, 1, 0, 4/5), (8/9, 1, 4/5, 1)] \<and>
   sum_list (map box_area (tile_boxes example_host ''/out/cube_Z'' 4 (example_frame 9 5 maxsize))) = 1"
proof -
  have t: "nat (tileCount 9 4) = 3" "nat (tileCount 5 4) = 2" by (simp_all add: tileCount_def)
  have u: "[0..<3] = [0, 1, 2]" "[0..<2] = [0, 1]" by (simp_all add: upt_rec)
  have pos: "(0::int) < 9" "(0::int) < 5" "(0::int) < 4" by simp_all
  note e = tiles_partition_unit_square[OF pos example_frame_sel(1,2) example_host_ok
      example_frame_sel(3), of evensize "''/out/cube_Z''", unfolded t]
  note m = tiles_partition_unit_square[OF pos example_frame_sel(1,2) example_host_ok
      example_frame_sel(3), of maxsize "''/out/cube_Z''", unfolded t]
  have ee: "grid_boxes (tile_boundary evensize 4 9) (tile_boundary evensize 4 5) 3 2 =
     [(0, 1/3, 0, 1/2), (0, 1/3, 1/2, 1), (1/3, 2/3, 0, 1/2), (1/3, 2/3, 1/2, 1),
      (2/3, 1, 0, 1/2), (2/3, 1, 1/2, 1)]"
    by (simp add: grid_boxes_def u tile_boundary_def tileCount_def)
  have mm: "grid_boxes (tile_boundary maxsize 4 9) (tile_boundary maxsize 4 5) 3 2 =
     [(0, 4/9, 0, 4/5), (0, 4/9, 4/5, 1), (4/9, 8/9, 0, 4/5), (4/9, 8/9, 4/5, 1),
      (8/9, 1, 0, 4/5), (8/9, 1, 4/5, 1)]"
    by (simp add: grid_boxes_def u tile_boundary_def)
  from e have e1: "fst (render example_host ''/out/cube_Z'' 4 (example_frame 9 5 evensize)) = None"
    and e2: "tile_boxes example_host ''/out/cube_Z'' 4 (example_frame 9 5 evensize) =
      grid_boxes (tile_boundary evensize 4 9) (tile_boundary evensize 4 5) 3 2"
    and e3: "sum_list (map box_area (tile_boxes example_host ''/out/cube_Z'' 4 (example_frame 9 5 evensize))) = 1"
    by blast+
  from m have m2: "tile_boxes example_host ''/out/cube_Z'' 4 (example_frame 9 5 maxsize) =
      grid_boxes (tile_boundary maxsize 4 9) (tile_boundary maxsize 4 5) 3 2"
    and m3: "sum_list (map box_area (tile_boxes example_host ''/out/cube_Z'' 4 (example_frame 9 5 maxsize))) = 1"
    by blast+
  show ?thesis
    using e1 e2 e3 m2 m3 by (simp only: ee mm simp_thms)
qed

text \<open>
  C2. For a positive cap \<open>m\<close> and any resolution \<open>w\<close> by \<open>h\<close>, with every render call
  succeeding: the tile counts are \<open>\<lceil>w / m\<rceil>\<close> and \<open>\<lceil>h / m\<rceil>\<close>; when both are 1 there
  is one render, with the border disabled (the whole frame), written to the base path
  itself; otherwise there is one render per grid position, in row-major order, the one at
  0-based \<open>(row, col)\<close> written to the base path followed by \<open>_\<close>, \<open>row + 1\<close>, \<open>_\<close> and
  \<open>col + 1\<close>, a function of the base path and the counts only. Under the maximum-size
  mode the boxes are cut at multiples of \<open>m\<close> pixels.
\<close>

theorem tile_decomposition:
  assumes "0 < m"
    and "resolution_x (scene_render st) = w" and "resolution_y (scene_render st) = h"
    and "\<forall>r. render_op_ok host r"
  shows
   "fst (render host basepath m st) = None \<and>
    (tileCount w m = 1 \<and> tileCount h m = 1 \<longrightarrow>
       map (\<lambda>r. (render_filepath r, use_border r, crop_box r))
         (tiles_written host basepath m st) = [(basepath, False, (0, 1, 0, 1))]) \<and>
    (\<not> (tileCount w m = 1 \<and> tileCount h m = 1) \<longrightarrow>
       map (\<lambda>r. (render_filepath r, use_border r)) (tiles_written host basepath m st) =
         concat (map (\<lambda>row. map (\<lambda>col. (tile_path basepath row col, True))
                   [0..<nat (tileCount h m)]) [0..<nat (tileCount w m)])) \<and>
    (0 < w \<and> 0 < h \<and> orthobatch_imgDivideMode (window_manager st) = maxsize \<longrightarrow>
       tile_boxes host basepath m st =
         grid_boxes (tile_boundary maxsize m w) (tile_boundary maxsize m h)
           (nat (tileCount w m)) (nat (tileCount h m)))"
proof (cases "tileCount w m = 1 \<and> tileCount h m = 1")
  case True
  from render_single[OF assms True, of basepath] True
    render_grid_boxes[OF _ _ assms(1-4), of maxsize basepath]
  show ?thesis by auto
next
  case False
  from render_grid_paths[OF assms False, of basepath] False
    render_grid_boxes[OF _ _ assms(1-4), of maxsize basepath]
  show ?thesis by auto
qed

text \<open>
  A width of 4096 under a cap of 4096 is one tile; a width of 4097 is two tiles, the
  second of which, under the maximum-size mode, is one pixel wide.
\<close>

theorem tile_decomposition_witness:
  "tileCount 4096 4096 = 1 \<and> tileCount 4097 4096 = 2 \<and>
   map (\<lambda>r. (render_filepath r, use_border r, crop_box r))
     (tiles_written example_host ''/out/cube_Z'' 4096 (example_frame 4096 4096 maxsize)) =
     [(''/out/cube_Z'', False, (0, 1, 0, 1))] \<and>
   map (\<lambda>r. (render_filepath r, use_border r))
     (tiles_written example_host ''/out/cube_Z'' 4096 (example_frame 4097 4096 maxsize)) =
     [(''/out/cube_Z_1_1'', True), (''/out/cube_Z_2_1'', True)] \<and>
   tile_boxes example_host ''/out/cube_Z'' 4096 (example_frame 4097 4096 maxsize) =
     [(0, 4096 / 4097, 0, 1), (4096 / 4097, 1, 0, 1)] \<and>
   (1 - 4096 / 4097) * 4097 = (1::real)"
proof -
  have t: "tileCount 4096 4096 = 1" "tileCount 4097 4096 = 2" by (simp_all add: tileCount_def)
  have u: "[0..<2] = [0, 1]" by (simp add: upt_rec)
  have pos: "(0::int) < 4096" by simp
  note one = tile_decomposition[where m = 4096 and w = 4096 and h = 4096
      and st = "example_frame 4096 4096 maxsize" and host = example_host
      and basepath = "''/out/cube_Z''",
      OF pos example_frame_sel(1,2) example_host_ok, unfolded t example_frame_sel]
  note two = tile_decomposition[where m = 4096 and w = 4097 and h = 4096
      and st = "example_frame 4097 4096 maxsize" and host = example_host
      and basepath = "''/out/cube_Z''",
      OF pos example_frame_sel(1,2) example_host_ok, unfolded t example_frame_sel]
  from one have a: "map (\<lambda>r. (render_filepath r, use_border r, crop_box r))
     (tiles_written example_host ''/out/cube_Z'' 4096 (example_frame 4096 4096 maxsize)) =
     [(''/out/cube_Z'', False, (0, 1, 0, 1))]"
    by simp
  from two have b: "map (\<lambda>r. (render_filepath r, use_border r))
     (tiles_written example_host ''/out/cube_Z'' 4096 (example_frame 4097 4096 maxsize)) =
     [(''/out/cube_Z_1_1'', True), (''/out/cube_Z_2_1'', True)]"
    and c: "tile_boxes example_host ''/out/cube_Z'' 4096 (example_frame 4097 4096 maxsize) =
     [(0, 4096 / 4097, 0, 1), (4096 / 4097, 1, 0, 1)]"
    by (simp_all add: u grid_boxes_def tile_boundary_def tile_path_def str_int_def)
  show ?thesis using t a b c by simp
qed

subsection \<open>Ordering of the discovered assets\<close>












subsection \<open>Destination paths\<close>

lemma split_not_Nil: "split s c \<noteq> []"
  by (induction s) (auto split: list.splits)

text \<open>
  C6. \<open>imageExportPath\<close> raises nothing and returns, for every asset, direction, export
  folder, path mode and suffix placement, the destination path of the specification, on
  the asset's base name and its relative subpath without the trailing separator;
  \<open>suffixName\<close> puts the direction and an underscore before the name, or an underscore
  and the direction after it.
\<close>

theorem imageExportPath_destinationPath:
  "imageExportPath self direction exportpath exportpathmode exportNameMode =
     Inr (destinationPath (name self) (subpathtrimmed self) direction exportpath
            exportpathmode exportNameMode) \<and>
   suffixName direction nm exportNameMode = suffixed exportNameMode direction nm \<and>
   suffixName direction nm prepend = direction @ ''_'' @ nm \<and>
   suffixName direction nm append_name = nm @ ''_'' @ direction"
  by (cases exportpathmode; cases exportNameMode)
     (simp_all add: destinationPath_def suffixed_def py_last_def split_not_Nil)

lemma ModelPath_init_cube:
  "name (ModelPath_init ''cube.obj'' ''/models/sub/cube.obj'' ''/models/'') = ''cube''"
  "subpath (ModelPath_init ''cube.obj'' ''/models/sub/cube.obj'' ''/models/'') = ''sub/''"
  by (simp_all add: ModelPath_init_def Let_def rfind_def py_slice_to_def py_slice_def
      clamp_index_def strip_def backslash_def startswith_def)

text \<open>
  The model \<open>cube.obj\<close> in the folder \<open>sub\<close>, shot along Z: \<open>cube_Z\<close> when the suffix is
  appended and \<open>Z_cube\<close> when it is prepended, and the four path modes.
\<close>

theorem imageExportPath_destinationPath_witness:
  "imageExportPath (ModelPath_init ''cube.obj'' ''/models/sub/cube.obj'' ''/models/'')
      ''Z'' ''/out'' flatten append_name = Inr ''/out/cube_Z'' \<and>
   imageExportPath (ModelPath_init ''cube.obj'' ''/models/sub/cube.obj'' ''/models/'')
      ''Z'' ''/out'' flatten prepend = Inr ''/out/Z_cube'' \<and>
   imageExportPath (ModelPath_init ''cube.obj'' ''/models/sub/cube.obj'' ''/models/'')
      ''Z'' ''/out'' keeppath append_name = Inr ''/out/sub/cube_Z'' \<and>
   imageExportPath (ModelPath_init ''cube.obj'' ''/models/sub/cube.obj'' ''/models/'')
      ''Z'' ''/out'' flatten_pathname append_name = Inr ''/out/sub_cube_Z'' \<and>
   imageExportPath (ModelPath_init ''cube.obj'' ''/models/sub/cube.obj'' ''/models/'')
      ''Z'' ''/out'' flatten_foldername append_name = Inr ''/out/sub_Z''"
proof -
  note code = imageExportPath_destinationPath
    [of "ModelPath_init ''cube.obj'' ''/models/sub/cube.obj'' ''/models/''" "''Z''" "''/out''",
     THEN conjunct1]
  show ?thesis
    unfolding code
    by (simp add: ModelPath_init_cube destinationPath_def suffixed_def subpathtrimmed_def
        endswith_def os_sep_def py_slice_to_def clamp_index_def os_path_join_def join2_def
        startswith_def replace_def)
qed

subsection \<open>Discovery\<close>

lemma ModelPath_init_sel:
  "filename (ModelPath_init fname fpath src) = fname"
  "filepath (ModelPath_init fname fpath src) = fpath"
  by (simp_all add: ModelPath_init_def Let_def)

text \<open>
  C7, as stated, fails: the file \<open>A.OBJ\<close> has an allowed extension when compared
  case-insensitively, and is not discovered.
\<close>

theorem uppercase_extension_counterexample:
  "extension_allowed_ci ''A.OBJ'' VALID_IMPORT_EXTENSIONS \<and>
   getAllModelPaths [(''/models/'', [''A.OBJ''])] ''/models/'' VALID_IMPORT_EXTENSIONS = []"
  by (simp add: extension_allowed_ci_def file_extension_def rfind_def py_slice_from_def
      clamp_index_def lower_def lower_char_def VALID_IMPORT_EXTENSIONS_def getAllModelPaths_def
      endswith_any_def endswith_def)

text \<open>
  C7, amended. \<open>getAllModelPaths\<close> includes a file of the walked tree exactly if its name
  ends, case-sensitively, with one of the given extensions; the result lists the
  included files with their joined paths in the order of the walk, and is empty for an
  empty tree.
\<close>

theorem getAllModelPaths_includes:
  "map (\<lambda>mp. (filename mp, filepath mp)) (getAllModelPaths walk basepath extensions) =
     concat (map (\<lambda>(subdir, files).
       map (\<lambda>file. (file, os_path_join basepath [subdir, file]))
         (filter (\<lambda>file. \<exists>e \<in> set extensions. endswith file e) files)) walk) \<and>
   ((file, path) \<in> set (map (\<lambda>mp. (filename mp, filepath mp))
                         (getAllModelPaths walk basepath extensions)) \<longleftrightarrow>
      (\<exists>subdir files. (subdir, files) \<in> set walk \<and> file \<in> set files \<and>
         path = os_path_join basepath [subdir, file] \<and>
         (\<exists>e \<in> set extensions. endswith file e))) \<and>
   getAllModelPaths [] basepath extensions = []"
proof -
  have list: "map (\<lambda>mp. (filename mp, filepath mp)) (getAllModelPaths walk basepath extensions) =
     concat (map (\<lambda>(subdir, files).
       map (\<lambda>file. (file, os_path_join basepath [subdir, file]))
         (filter (\<lambda>file. \<exists>e \<in> set extensions. endswith file e) files)) walk)"
    by (induction walk)
       (auto simp: getAllModelPaths_def ModelPath_init_sel endswith_any_def list_ex_iff comp_def)
  have mem: "(file, path) \<in> set (concat (map (\<lambda>(subdir, files).
       map (\<lambda>file. (file, os_path_join basepath [subdir, file]))
         (filter (\<lambda>file. \<exists>e \<in> set extensions. endswith file e) files)) walk)) \<longleftrightarrow>
      (\<exists>subdir files. (subdir, files) \<in> set walk \<and> file \<in> set files \<and>
         path = os_path_join basepath [subdir, file] \<and>
         (\<exists>e \<in> set extensions. endswith file e))"
    by (induction walk) auto
  show ?thesis
    unfolding list using mem by (simp add: getAllModelPaths_def)
qed

theorem getAllModelPaths_includes_witness:
  "map (\<lambda>mp. (filename mp, filepath mp))
     (getAllModelPaths [(''/models/'', [''a.obj'', ''B.OBJ'', ''notes.txt'']), (''/models/sub'', [''c.glb''])]
        ''/models/'' VALID_IMPORT_EXTENSIONS) =
   [(''a.obj'', ''/models/a.obj''), (''c.glb'', ''/models/sub/c.glb'')]"
  unfolding getAllModelPaths_includes[THEN conjunct1]
  by (simp add: VALID_IMPORT_EXTENSIONS_def endswith_def os_path_join_def join2_def
      startswith_def os_sep_def)

subsection \<open>The start index and its toggle\<close>




































subsection \<open>Isolation of import failures\<close>

lemma import_loop_append:
  "import_loop host camera (xs @ ys) results st =
     (case import_loop host camera xs results st of
        (Inl e, st') \<Rightarrow> (Inl e, st')
      | (Inr results', st') \<Rightarrow> import_loop host camera ys results' st')"
proof (induction xs arbitrary: results st)
  case Nil
  then show ?case by simp
next
  case (Cons x xs)
  obtain fails successes where r: "results = (fails, successes)" by (cases results)
  show ?case
    unfolding r
    by (simp add: Cons.IH split: prod.splits option.splits sum.splits)
qed

lemma import_loop_results:
  "import_loop host camera paths (fails, successes) st =
     (case import_loop host camera paths ([], []) st of
        (Inl e, st') \<Rightarrow> (Inl e, st')
      | (Inr (f, s), st') \<Rightarrow> (Inr (fails @ f, successes @ s), st'))"
proof (induction paths arbitrary: fails successes st)
  case Nil
  then show ?case by simp
next
  case (Cons path paths)
  obtain ob msg st1 where ti: "tryImport host path st = ((ob, msg), st1)"
    by (cases "tryImport host path st") auto
  show ?case
  proof (cases ob)
    case None
    show ?thesis
      using ti None
        Cons.IH[of "fails @ [(filepath path, msg)]" successes st1]
        Cons.IH[of "[(filepath path, msg)]" "[]" st1]
      by (auto split: prod.splits sum.splits)
  next
    case (Some o1)
    obtain e st2 where pr: "prepare_shoot_clean_object host o1 camera path st1 = (e, st2)"
      by (cases "prepare_shoot_clean_object host o1 camera path st1")
    obtain e3 st3 where di: "disposeobject o1 st2 = (e3, st3)"
      by (cases "disposeobject o1 st2")
    show ?thesis
      using ti Some pr di
        Cons.IH[of fails "successes @ [(filepath path, msg)]" st3]
        Cons.IH[of "[]" "[(filepath path, msg)]" st3]
      by (cases e; cases e3) (auto split: prod.splits sum.splits)
  qed
qed

lemma import_loop_split:
  "import_loop host camera (pre @ post) ([], []) st =
     (case import_loop host camera pre ([], []) st of
        (Inl e, st1) \<Rightarrow> (Inl e, st1)
      | (Inr (f1, s1), st1) \<Rightarrow>
          (case import_loop host camera post ([], []) st1 of
             (Inl e, st2) \<Rightarrow> (Inl e, st2)
           | (Inr (f2, s2), st2) \<Rightarrow> (Inr (f1 @ f2, s1 @ s2), st2)))"
proof (cases "import_loop host camera pre ([], []) st")
  case (Pair r st1)
  show ?thesis
  proof (cases r)
    case (Inl e)
    then show ?thesis using Pair by (simp add: import_loop_append)
  next
    case (Inr fs)
    obtain f1 s1 where fs: "fs = (f1, s1)" by (cases fs)
    show ?thesis
      using Pair Inr fs import_loop_results[of host camera post f1 s1 st1]
      by (simp add: import_loop_append)
  qed
qed


lemma import_loop_failed_first:
  assumes "\<forall>s. tryImport host p s = ((None, msg), s)"
  shows "import_loop host camera (p # post) ([], []) st =
     (case import_loop host camera post ([], []) st of
        (Inl e, st') \<Rightarrow> (Inl e, st')
      | (Inr (f, s), st') \<Rightarrow> (Inr ((filepath p, msg) # f, s), st'))"
proof -
  have a: "import_loop host camera (p # post) ([], []) st =
      import_loop host camera post ([(filepath p, msg)], []) st"
    using assms by simp
  have b: "import_loop host camera post ([(filepath p, msg)], []) st =
      (case import_loop host camera post ([], []) st of
        (Inl e, st') \<Rightarrow> (Inl e, st')
      | (Inr (f, s), st') \<Rightarrow> (Inr ([(filepath p, msg)] @ f, [] @ s), st'))"
    by (rule import_loop_results)
  have c: "(case import_loop host camera post ([], []) st of
        (Inl e, st') \<Rightarrow> (Inl e, st')
      | (Inr (f, s), st') \<Rightarrow> (Inr ([(filepath p, msg)] @ f, [] @ s), st')) =
      (case import_loop host camera post ([], []) st of
        (Inl e, st') \<Rightarrow> (Inl e, st')
      | (Inr (f, s), st') \<Rightarrow> (Inr ((filepath p, msg) # f, s), st'))"
    by (simp split: prod.splits sum.splits)
  show ?thesis by (rule trans[OF trans[OF a b] c])
qed

text \<open>
  C8. \<open>tryImport\<close> catches every exception of the importer and returns the failure as a
  value. When the import of an asset \<open>p\<close> fails with message \<open>msg\<close>, the loop over a list
  containing \<open>p\<close> ends in the same state as the loop over the list without \<open>p\<close>, raises
  exactly when that one does, and returns the same success list; its failure list is
  that of the other run with the entry \<open>(filepath p, msg)\<close> added at \<open>p\<close>'s place. So
  the failure is recorded against \<open>p\<close> only and every other asset is processed as if
  \<open>p\<close> were not there.
\<close>

theorem import_failure_isolated:
  assumes "\<forall>s. tryImport host p s = ((None, msg), s)"
  shows
   "snd (import_loop host camera (pre @ p # post) ([], []) st) =
      snd (import_loop host camera (pre @ post) ([], []) st) \<and>
    (\<forall>e. fst (import_loop host camera (pre @ p # post) ([], []) st) = Inl e \<longleftrightarrow>
          fst (import_loop host camera (pre @ post) ([], []) st) = Inl e) \<and>
    (\<forall>fails successes.
       fst (import_loop host camera (pre @ post) ([], []) st) = Inr (fails, successes) \<longrightarrow>
       (\<exists>f1 s1 st1 f2 s2 st2.
          import_loop host camera pre ([], []) st = (Inr (f1, s1), st1) \<and>
          import_loop host camera post ([], []) st1 = (Inr (f2, s2), st2) \<and>
          fails = f1 @ f2 \<and> successes = s1 @ s2 \<and>
          import_loop host camera (pre @ p # post) ([], []) st =
            (Inr (f1 @ (filepath p, msg) # f2, successes), st2)))"
proof (cases "import_loop host camera pre ([], []) st")
  case (Pair r st1)
  show ?thesis
  proof (cases r)
    case (Inl e)
    then show ?thesis
      using Pair import_loop_split[of host camera pre post st]
        import_loop_split[of host camera pre "p # post" st]
      by simp
  next
    case (Inr fs)
    obtain f1 s1 where fs: "fs = (f1, s1)" by (cases fs)
    obtain r2 st2 where p2: "import_loop host camera post ([], []) st1 = (r2, st2)"
      by (cases "import_loop host camera post ([], []) st1")
    show ?thesis
    proof (cases r2)
      case (Inl e)
      then show ?thesis
        using Pair Inr fs p2 import_loop_split[of host camera pre post st]
          import_loop_split[of host camera pre "p # post" st]
          import_loop_failed_first[OF assms, of camera post st1]
        by simp
    next
      case r2: (Inr fs2)
      obtain f2 s2 where fs2: "fs2 = (f2, s2)" by (cases fs2)
      show ?thesis
        using Pair Inr fs p2 r2 fs2 import_loop_split[of host camera pre post st]
          import_loop_split[of host camera pre "p # post" st]
          import_loop_failed_first[OF assms, of camera post st1]
        by simp
    qed
  qed
qed

lemma example_import_fails:
  "\<forall>s. tryImport example_host asset_b s = ((None, ''FAILED: broken file''), s)"
  by (simp add: tryImport_def example_host_def asset_b_def ModelPath_init_def Let_def
      rfind_def py_slice_from_def clamp_index_def)

lemma example_without_b:
  "fst (import_loop example_host 1 ([asset_a] @ [asset_c]) ([], []) example_scene) =
     Inr ([], [(''/models/a.obj'', ''succeeded''), (''/models/c.obj'', ''succeeded'')])"
  "map render_filepath
     (rendered (snd (import_loop example_host 1 ([asset_a] @ [asset_c]) ([], []) example_scene)))
       = [''/out/a_Z'', ''/out/c_Z'']"
  by code_simp+

lemma example_report:
  "messages (snd (main example_host example_scene)) =
     [ImportReport [(''/models/a.obj'', ''succeeded''), (''/models/c.obj'', ''succeeded'')]
        [(''/models/b.obj'', ''FAILED: broken file'')]]"
  by code_simp

text \<open>
  Three models of which the second fails to import: the first and the third are shot
  and listed as successes, the second is listed as a failure with the importer's message.
\<close>

theorem import_failure_isolated_witness:
  "(\<forall>s. tryImport example_host asset_b s = ((None, ''FAILED: broken file''), s)) \<and>
   snd (import_loop example_host 1 ([asset_a] @ asset_b # [asset_c]) ([], []) example_scene) =
     snd (import_loop example_host 1 ([asset_a] @ [asset_c]) ([], []) example_scene) \<and>
   fst (import_loop example_host 1 ([asset_a] @ asset_b # [asset_c]) ([], []) example_scene) =
     Inr ([(''/models/b.obj'', ''FAILED: broken file'')],
          [(''/models/a.obj'', ''succeeded''), (''/models/c.obj'', ''succeeded'')]) \<and>
   map render_filepath
     (rendered (snd (import_loop example_host 1 ([asset_a] @ asset_b # [asset_c]) ([], [])
        example_scene))) = [''/out/a_Z'', ''/out/c_Z''] \<and>
   messages (snd (main example_host example_scene)) =
     [ImportReport [(''/models/a.obj'', ''succeeded''), (''/models/c.obj'', ''succeeded'')]
        [(''/models/b.obj'', ''FAILED: broken file'')]]"
proof -
  note inst = import_failure_isolated[OF example_import_fails, of 1 "[asset_a]" "[asset_c]"
      example_scene]
  from inst have same:
    "snd (import_loop example_host 1 ([asset_a] @ asset_b # [asset_c]) ([], []) example_scene) =
     snd (import_loop example_host 1 ([asset_a] @ [asset_c]) ([], []) example_scene)"
    by (rule conjunct1)
  have bpath: "filepath asset_b = ''/models/b.obj''"
    by (simp add: asset_b_def ModelPath_init_def Let_def)
  from inst have "\<exists>f1 s1 st1 f2 s2 st2.
          import_loop example_host 1 [asset_a] ([], []) example_scene = (Inr (f1, s1), st1) \<and>
          import_loop example_host 1 [asset_c] ([], []) st1 = (Inr (f2, s2), st2) \<and>
          [] = f1 @ f2 \<and>
          [(''/models/a.obj'', ''succeeded''), (''/models/c.obj'', ''succeeded'')] = s1 @ s2 \<and>
          import_loop example_host 1 ([asset_a] @ asset_b # [asset_c]) ([], []) example_scene =
            (Inr (f1 @ (filepath asset_b, ''FAILED: broken file'') # f2,
                  [(''/models/a.obj'', ''succeeded''), (''/models/c.obj'', ''succeeded'')]), st2)"
    using example_without_b(1) by blast
  then obtain f1 f2 st2 where "[] = f1 @ f2" and
    "import_loop example_host 1 ([asset_a] @ asset_b # [asset_c]) ([], []) example_scene =
       (Inr (f1 @ (filepath asset_b, ''FAILED: broken file'') # f2,
             [(''/models/a.obj'', ''succeeded''), (''/models/c.obj'', ''succeeded'')]), st2)"
    by blast
  then have with_b:
    "fst (import_loop example_host 1 ([asset_a] @ asset_b # [asset_c]) ([], []) example_scene) =
     Inr ([(''/models/b.obj'', ''FAILED: broken file'')],
          [(''/models/a.obj'', ''succeeded''), (''/models/c.obj'', ''succeeded'')])"
    by (simp add: bpath)
  have rend: "map render_filepath
     (rendered (snd (import_loop example_host 1 ([asset_a] @ asset_b # [asset_c]) ([], [])
        example_scene))) = [''/out/a_Z'', ''/out/c_Z'']"
    by (simp only: same example_without_b(2))
  show ?thesis
    using example_import_fails same with_b rend example_report by (simp only: simp_thms)
qed

subsection \<open>Restoring the scene after a run\<close>

text \<open>
  C9 does not hold of the code. In the mode "objects in this file", with backface culling
  switched on in the settings and a renderer that raises: \<open>main\<close> catches the exception,
  reports it and restores the visibility flag of the cube, but the cube's material, whose
  culling flag was off before the run, is left with the flag on, because
  \<open>prepare_shoot_clean_object\<close> restores the flags only after its loop has finished.
\<close>

theorem culling_not_restored_after_render_error:
  "use_backface_culling currentfile_scene 0 = False \<and>
   orthobatch_backCulling (window_manager currentfile_scene) = True \<and>
   map (\<lambda>(i, ob). (i, hide_render ob)) (scene_objects currentfile_scene) = [(0, False)] \<and>
   fst (main failing_render_host currentfile_scene) = None \<and>
   messages (snd (main failing_render_host currentfile_scene)) = [ErrorOccurred RuntimeError] \<and>
   map (\<lambda>(i, ob). (i, hide_render ob))
     (scene_objects (snd (main failing_render_host currentfile_scene))) = [(0, False)] \<and>
   use_backface_culling (snd (main failing_render_host currentfile_scene)) 0 = True"
  by code_simp

text \<open>
  The same happens in a run without any failure when one material fills two slots of
  an object: the second slot remembers the value that the first slot has just written.
\<close>

lemma culling_not_restored_for_shared_material:
  "use_backface_culling shared_slot_scene 0 = False \<and>
   fst (main example_host shared_slot_scene) = None \<and>
   messages (snd (main example_host shared_slot_scene)) = [] \<and>
   map render_filepath (rendered (snd (main example_host shared_slot_scene))) = [''/out/Cube_Z''] \<and>
   use_backface_culling (snd (main example_host shared_slot_scene)) 0 = True"
  by code_simp

text \<open>
  When the source folder holds no model, \<open>main\<close> returns from inside the \<open>try\<close> block,
  after it has hidden every object and created the camera: the objects stay hidden and
  the camera stays in the scene.
\<close>

lemma visibility_not_restored_for_empty_folder:
  "map (\<lambda>(i, ob). (obj_name ob, hide_render ob)) (scene_objects example_scene) =
     [(''Cube'', False)] \<and>
   fst (main empty_folder_host example_scene) = None \<and>
   messages (snd (main empty_folder_host example_scene)) =
     [Text ''ABORTING: Source directory has no valid model files (valid extensions are)''] \<and>
   map (\<lambda>(i, ob). (obj_name ob, hide_render ob))
     (scene_objects (snd (main empty_folder_host example_scene))) =
     [(''Cube'', True), (''OrthoCam'', False)]"
  by code_simp

text \<open>A run of the example folder, for comparison: the cube is visible again.\<close>

lemma visibility_restored_example:
  "fst (main example_host example_scene) = None \<and>
   messages (snd (main example_host example_scene)) =
     [ImportReport [(''/models/a.obj'', ''succeeded''), (''/models/c.obj'', ''succeeded'')]
        [(''/models/b.obj'', ''FAILED: broken file'')]] \<and>
   map render_filepath (rendered (snd (main example_host example_scene))) =
     [''/out/a_Z'', ''/out/c_Z''] \<and>
   map (\<lambda>(i, ob). (obj_name ob, hide_render ob))
     (scene_objects (snd (main example_host example_scene))) = [(''Cube'', False)]"
  by code_simp

end
